theory Spec2Isabelle
  imports Complex_Main
begin

section \<open>Values exchanged with the HTTP layer\<close>

text \<open>
  The server of \<^verbatim>\<open>src/Serve.js\<close> is an Express application with one in-memory job
  queue. A request body is what \<^verbatim>\<open>express.json\<close> hands to the handler: a parsed JSON
  value, or \<^verbatim>\<open>undefined\<close> (\<open>None\<close>) when no JSON body was parsed. An object is the
  association list of its own properties, looked up by key. A request that the
  middleware answers itself (malformed JSON, a body over the size limit) never reaches a
  handler and is not a request of this model; the CORS check only decides response
  headers, and the \<^verbatim>\<open>console.log\<close> lines write to no state a handler reads.
\<close>

datatype json =
    JNull
  | JBool bool
  | JNum real
  | JStr string
  | JArr "json list"
  | JObj "(string \<times> json) list"

text \<open>JavaScript truthiness of a JSON value (\<^verbatim>\<open>!v\<close> is its negation).\<close>

fun truthy :: "json \<Rightarrow> bool" where
  "truthy JNull = False"
| "truthy (JBool b) = b"
| "truthy (JNum x) = (x \<noteq> 0)"
| "truthy (JStr s) = (s \<noteq> [])"
| "truthy (JArr vs) = True"
| "truthy (JObj kvs) = True"

text \<open>A possibly \<^verbatim>\<open>undefined\<close> value: \<open>None\<close> is \<^verbatim>\<open>undefined\<close>, which is falsy.\<close>

fun js_not :: "json option \<Rightarrow> bool" where
  "js_not None = True"
| "js_not (Some v) = (\<not> truthy v)"

fun typeof :: "json option \<Rightarrow> string" where
  "typeof None = ''undefined''"
| "typeof (Some JNull) = ''object''"
| "typeof (Some (JBool b)) = ''boolean''"
| "typeof (Some (JNum x)) = ''number''"
| "typeof (Some (JStr s)) = ''string''"
| "typeof (Some (JArr vs)) = ''object''"
| "typeof (Some (JObj kvs)) = ''object''"

text \<open>Property read \<^verbatim>\<open>v.k\<close>: only an object has own properties of interest here.\<close>

fun get_prop :: "json \<Rightarrow> string \<Rightarrow> json option" where
  "get_prop (JObj kvs) k = map_of kvs k"
| "get_prop v k = None"

text \<open>\<^verbatim>\<open>req.body || {}\<close>\<close>

fun body_or_empty :: "json option \<Rightarrow> json" where
  "body_or_empty None = JObj []"
| "body_or_empty (Some v) = (if truthy v then v else JObj [])"

text \<open>
  A query parameter as Express parses it: absent (\<^verbatim>\<open>undefined\<close>), a string, or, for
  repeated and bracketed keys, an array or an object.
\<close>

datatype query =
    QUndefined
  | QStr string
  | QArr "query list"
  | QObj "(string \<times> query) list"

fun q_truthy :: "query \<Rightarrow> bool" where
  "q_truthy QUndefined = False"
| "q_truthy (QStr s) = (s \<noteq> [])"
| "q_truthy (QArr vs) = True"
| "q_truthy (QObj kvs) = True"

text \<open>
  A response: the status code, the headers the handler sets itself, and the body, sent
  either with \<^verbatim>\<open>res.json\<close> or with \<^verbatim>\<open>res.send\<close> of a string.
\<close>

datatype body = Json json | Text string

record response =
  code :: nat
  headers :: "(string \<times> string) list"
  body :: body

section \<open>The job queue\<close>

text \<open>
  \<^verbatim>\<open>let nextJobId = 1; const jobs = [];\<close> Each job is
  \<^verbatim>\<open>{ id, token, content, status }\<close>; the status is one of the four string constants
  the handlers assign. The array only grows by \<^verbatim>\<open>push\<close>, so list order is insertion
  order. Ids are natural numbers: the counter starts at 1 and is only incremented, and
  JavaScript numbers are exact on the integers a queue held in memory can reach.
\<close>

datatype status = Pending | Printing | Done | Error

record job =
  job_id :: nat
  token :: string
  content :: string
  status :: status

record store =
  nextJobId :: nat
  jobs :: "job list"

definition init_store :: store where
  "init_store = \<lparr>nextJobId = 1, jobs = []\<rparr>"

text \<open>
  Decimal rendering of a number inside a template literal. The id is a positive integer
  and \<^verbatim>\<open>Date.now()\<close> an integer of milliseconds, both far below the magnitude where
  JavaScript switches to exponent notation. \<open>digit_char\<close> is only applied to a
  digit, that is to a number below ten.
\<close>

definition digit_char :: "nat \<Rightarrow> char" where
  "digit_char d = ''0123456789'' ! d"

fun show_nat :: "nat \<Rightarrow> string" where
  "show_nat n = (if n < 10 then [digit_char n] else show_nat (n div 10) @ [digit_char (n mod 10)])"

declare show_nat.simps [simp del]

definition show_int :: "int \<Rightarrow> string" where
  "show_int i = (if i < 0 then CHR ''-'' # show_nat (nat (- i)) else show_nat (nat i))"

text \<open>\<^verbatim>\<open>makeToken(id)\<close>, with the clock reading \<^verbatim>\<open>Date.now()\<close> as a parameter.\<close>

definition makeToken :: "nat \<Rightarrow> int \<Rightarrow> string" where
  "makeToken i now = ''job-'' @ show_nat i @ ''-'' @ show_int now"

text \<open>
  \<^verbatim>\<open>jobs.find(p)\<close> yields a reference to the first element satisfying \<open>p\<close>; the
  reference is the element's position, through which the handlers then write.
\<close>

fun find_ref :: "('a \<Rightarrow> bool) \<Rightarrow> 'a list \<Rightarrow> nat option" where
  "find_ref p [] = None"
| "find_ref p (x # xs) = (if p x then Some 0 else map_option Suc (find_ref p xs))"

text \<open>\<^verbatim>\<open>job.status = st\<close> through such a reference.\<close>

definition set_status :: "nat \<Rightarrow> status \<Rightarrow> store \<Rightarrow> store" where
  "set_status i st s = s\<lparr>jobs := (jobs s)[i := (jobs s ! i)\<lparr>status := st\<rparr>]\<rparr>"

text \<open>\<^verbatim>\<open>j.token === token\<close>: strict equality holds only for an equal string.\<close>

definition token_is :: "query \<Rightarrow> job \<Rightarrow> bool" where
  "token_is q j = (QStr (token j) = q)"

section \<open>The handlers\<close>

text \<open>\<^verbatim>\<open>app.post("/api/order")\<close>; \<open>now\<close> is what \<^verbatim>\<open>Date.now()\<close> returns in \<^verbatim>\<open>makeToken\<close>.\<close>

definition post_api_order :: "json option \<Rightarrow> int \<Rightarrow> store \<Rightarrow> response \<times> store" where
  "post_api_order reqbody now s =
     (let text = get_prop (body_or_empty reqbody) ''text'' in
      if js_not text \<or> typeof text \<noteq> ''string''
      then (\<lparr>code = 400, headers = [],
              body = Json (JObj [(''error'', JStr ''Missing 'text' field'')])\<rparr>, s)
      else (case text of
              Some (JStr t) \<Rightarrow>
                (let i = nextJobId s; tok = makeToken i now in
                 (\<lparr>code = 200, headers = [],
                    body = Json (JObj [(''ok'', JBool True), (''id'', JNum (real i)),
                                      (''token'', JStr tok)])\<rparr>,
                  s\<lparr>nextJobId := i + 1,
                    jobs := jobs s @ [\<lparr>job_id = i, token = tok, content = t, status = Pending\<rparr>]\<rparr>))
            | _ \<Rightarrow> (\<lparr>code = 400, headers = [],
                      body = Json (JObj [(''error'', JStr ''Missing 'text' field'')])\<rparr>, s)))"

text \<open>\<^verbatim>\<open>app.get("/api/debug/jobs")\<close> sends the whole array as JSON.\<close>

fun status_str :: "status \<Rightarrow> string" where
  "status_str Pending = ''pending''"
| "status_str Printing = ''printing''"
| "status_str Done = ''done''"
| "status_str Error = ''error''"

definition job_json :: "job \<Rightarrow> json" where
  "job_json j = JObj [(''id'', JNum (real (job_id j))), (''token'', JStr (token j)),
                      (''content'', JStr (content j)), (''status'', JStr (status_str (status j)))]"

definition get_api_debug_jobs :: "store \<Rightarrow> response \<times> store" where
  "get_api_debug_jobs s =
     (\<lparr>code = 200, headers = [], body = Json (JArr (map job_json (jobs s)))\<rparr>, s)"

text \<open>
  \<^verbatim>\<open>app.post("/cloudprnt")\<close>: the printer polls. The body is only logged. The handler
  is one synchronous function: the search and the write happen in the same turn of the
  event loop.
\<close>

definition post_cloudprnt :: "json option \<Rightarrow> store \<Rightarrow> response \<times> store" where
  "post_cloudprnt reqbody s =
     (case find_ref (\<lambda>j. status j = Pending) (jobs s) of
        None \<Rightarrow>
          (\<lparr>code = 200, headers = [],
             body = Json (JObj [(''jobReady'', JNum 0),
                               (''mediaTypes'', JArr [JStr ''text/plain''])])\<rparr>, s)
      | Some r \<Rightarrow>
          (let s' = set_status r Printing s in
           (\<lparr>code = 200, headers = [],
              body = Json (JObj [(''jobReady'', JNum 1),
                                (''jobToken'', JStr (token (jobs s' ! r))),
                                (''mediaTypes'', JArr [JStr ''text/plain'']),
                                (''pollInterval'', JNum 5)])\<rparr>, s')))"

text \<open>\<^verbatim>\<open>app.get("/cloudprnt")\<close>: the printer fetches the job data.\<close>

definition get_cloudprnt :: "query \<Rightarrow> store \<Rightarrow> response \<times> store" where
  "get_cloudprnt tok s =
     (if \<not> q_truthy tok
      then (\<lparr>code = 400, headers = [], body = Text ''Missing job_token''\<rparr>, s)
      else (case find_ref (token_is tok) (jobs s) of
              None \<Rightarrow> (\<lparr>code = 404, headers = [], body = Text ''Job not found''\<rparr>, s)
            | Some r \<Rightarrow>
                (\<lparr>code = 200, headers = [(''Content-Type'', ''text/plain; charset=utf-8'')],
                   body = Text (content (jobs s ! r))\<rparr>, s)))"

text \<open>\<^verbatim>\<open>app.delete("/cloudprnt")\<close>: the printer confirms the result.\<close>

definition delete_cloudprnt :: "query \<Rightarrow> query \<Rightarrow> store \<Rightarrow> response \<times> store" where
  "delete_cloudprnt tok st s =
     (if \<not> q_truthy tok
      then (\<lparr>code = 400, headers = [], body = Text ''Missing job_token''\<rparr>, s)
      else (case find_ref (token_is tok) (jobs s) of
              None \<Rightarrow> (\<lparr>code = 404, headers = [], body = Text ''Job not found''\<rparr>, s)
            | Some r \<Rightarrow>
                (if st = QStr ''0''
                 then (\<lparr>code = 200, headers = [], body = Text ''OK''\<rparr>, set_status r Done s)
                 else (\<lparr>code = 200, headers = [], body = Text ''OK''\<rparr>, set_status r Error s))))"

text \<open>\<^verbatim>\<open>app.get("/")\<close>\<close>

definition get_root :: "store \<Rightarrow> response \<times> store" where
  "get_root s =
     (\<lparr>code = 200, headers = [], body = Text ''Aldo's CloudPRNT server is running.''\<rparr>, s)"

section \<open>Requests and runs\<close>

text \<open>
  One constructor per route. A submission carries the clock reading its handler takes.
  Every handler is synchronous, so Node's event loop runs each request's handler to
  completion before the next: the process lifetime is a list of requests served one
  after the other from \<open>init_store\<close>.
\<close>

datatype request =
    PostApiOrder "json option" int
  | GetApiDebugJobs
  | PostCloudprnt "json option"
  | GetCloudprnt query
  | DeleteCloudprnt query query
  | GetRoot

fun handle :: "request \<Rightarrow> store \<Rightarrow> response \<times> store" where
  "handle (PostApiOrder b now) s = post_api_order b now s"
| "handle GetApiDebugJobs s = get_api_debug_jobs s"
| "handle (PostCloudprnt b) s = post_cloudprnt b s"
| "handle (GetCloudprnt tok) s = get_cloudprnt tok s"
| "handle (DeleteCloudprnt tok st) s = delete_cloudprnt tok st s"
| "handle GetRoot s = get_root s"

fun run :: "request list \<Rightarrow> store \<Rightarrow> response list \<times> store" where
  "run [] s = ([], s)"
| "run (r # rs) s =
     (let (resp, s') = handle r s; (resps, s'') = run rs s' in (resp # resps, s''))"

section \<open>Observations used by the properties\<close>

text \<open>The two bodies a poll can answer with.\<close>

abbreviation no_job :: response where
  "no_job \<equiv> \<lparr>code = 200, headers = [],
     body = Json (JObj [(''jobReady'', JNum 0), (''mediaTypes'', JArr [JStr ''text/plain''])])\<rparr>"

abbreviation job_ready :: "string \<Rightarrow> response" where
  "job_ready tok \<equiv> \<lparr>code = 200, headers = [],
     body = Json (JObj [(''jobReady'', JNum 1), (''jobToken'', JStr tok),
                       (''mediaTypes'', JArr [JStr ''text/plain'']),
                       (''pollInterval'', JNum 5)])\<rparr>"

text \<open>The answers to a submission, and the plain-text answers of the device routes.\<close>

abbreviation accepted :: "nat \<Rightarrow> string \<Rightarrow> response" where
  "accepted i tok \<equiv> \<lparr>code = 200, headers = [],
     body = Json (JObj [(''ok'', JBool True), (''id'', JNum (real i)), (''token'', JStr tok)])\<rparr>"

abbreviation rejected :: response where
  "rejected \<equiv> \<lparr>code = 400, headers = [],
     body = Json (JObj [(''error'', JStr ''Missing 'text' field'')])\<rparr>"

abbreviation ok_text :: response where
  "ok_text \<equiv> \<lparr>code = 200, headers = [], body = Text ''OK''\<rparr>"

abbreviation missing_token :: response where
  "missing_token \<equiv> \<lparr>code = 400, headers = [], body = Text ''Missing job_token''\<rparr>"

abbreviation not_found :: response where
  "not_found \<equiv> \<lparr>code = 404, headers = [], body = Text ''Job not found''\<rparr>"

abbreviation job_data :: "string \<Rightarrow> response" where
  "job_data c \<equiv> \<lparr>code = 200, headers = [(''Content-Type'', ''text/plain; charset=utf-8'')],
     body = Text c\<rparr>"

text \<open>A property of a JSON response body, as a client reads it.\<close>

definition body_prop :: "response \<Rightarrow> string \<Rightarrow> json option" where
  "body_prop r k = (case body r of Json v \<Rightarrow> get_prop v k | Text t \<Rightarrow> None)"

text \<open>
  The \<^verbatim>\<open>id\<close> and \<^verbatim>\<open>token\<close> values returned to producers over a run, in the order
  of the responses. Only an accepted submission answers with these keys.
\<close>

fun returned_ids :: "response list \<Rightarrow> real list" where
  "returned_ids [] = []"
| "returned_ids (r # rs) =
     (case body_prop r ''id'' of Some (JNum i) \<Rightarrow> i # returned_ids rs | _ \<Rightarrow> returned_ids rs)"

fun returned_tokens :: "response list \<Rightarrow> string list" where
  "returned_tokens [] = []"
| "returned_tokens (r # rs) =
     (case body_prop r ''token'' of Some (JStr t) \<Rightarrow> t # returned_tokens rs
      | _ \<Rightarrow> returned_tokens rs)"

definition terminal :: "status \<Rightarrow> bool" where
  "terminal st = (st = Done \<or> st = Error)"

text \<open>Whether a request is an acknowledgment naming the token \<open>t\<close>.\<close>

fun acks_token :: "string \<Rightarrow> request \<Rightarrow> bool" where
  "acks_token t (DeleteCloudprnt q st) = (q = QStr t)"
| "acks_token t r = False"

text \<open>
  Requests in flight at the same time: since no handler yields, the event loop serves
  them one at a time in some order, a permutation \<open>order\<close> of their indices. The result
  pairs each request's index with the response it receives.
\<close>

definition serve_concurrently ::
  "nat list \<Rightarrow> request list \<Rightarrow> store \<Rightarrow> (nat \<times> response) list" where
  "serve_concurrently order reqs s = zip order (fst (run (map (\<lambda>k. reqs ! k) order) s))"

text \<open>
  What every store built by the handlers satisfies: ids are increasing along the array
  and below the counter, and every token was made from its job's id.
\<close>

definition idents :: "store \<Rightarrow> (nat \<times> string) list" where
  "idents s = map (\<lambda>j. (job_id j, token j)) (jobs s)"

definition store_inv :: "store \<Rightarrow> bool" where
  "store_inv s \<longleftrightarrow>
     sorted_wrt (<) (map fst (idents s)) \<and>
     (\<forall>(i, t) \<in> set (idents s). i < nextJobId s \<and> (\<exists>now. t = makeToken i now))"

text \<open>The body of a well-formed submission, \<^verbatim>\<open>{ text: t }\<close>.\<close>

definition order_body :: "string \<Rightarrow> json option" where
  "order_body t = Some (JObj [(''text'', JStr t)])"

text \<open>Three jobs as the queue holds them after three submissions, at a given status.\<close>

definition job1 :: "status \<Rightarrow> job" where
  "job1 st = \<lparr>job_id = 1, token = ''job-1-1700000000000'', content = ''Order #1'', status = st\<rparr>"

definition job2 :: "status \<Rightarrow> job" where
  "job2 st = \<lparr>job_id = 2, token = ''job-2-1700000000500'', content = ''Order #2'', status = st\<rparr>"

definition job3 :: "status \<Rightarrow> job" where
  "job3 st = \<lparr>job_id = 3, token = ''job-3-1700000000900'', content = ''Order #3'', status = st\<rparr>"

section \<open>Auxiliary facts\<close>

lemmas handler_defs =
  post_api_order_def post_cloudprnt_def get_cloudprnt_def delete_cloudprnt_def
  get_api_debug_jobs_def get_root_def set_status_def token_is_def order_body_def Let_def

subsection \<open>First-match search\<close>

lemma find_ref_None_iff: "find_ref p xs = None \<longleftrightarrow> (\<forall>x\<in>set xs. \<not> p x)"
  by (induction xs) auto

lemma find_ref_first:
  "\<forall>x\<in>set pre. \<not> p x \<Longrightarrow> p j \<Longrightarrow> find_ref p (pre @ j # post) = Some (length pre)"
  by (induction pre) auto

lemma find_ref_SomeD:
  "find_ref p xs = Some i \<Longrightarrow> i < length xs \<and> p (xs ! i) \<and> (\<forall>k<i. \<not> p (xs ! k))"
proof (induction xs arbitrary: i)
  case Nil
  then show ?case by simp
next
  case (Cons x xs)
  show ?case
  proof (cases "p x")
    case True
    with Cons.prems show ?thesis by simp
  next
    case False
    with Cons.prems obtain i' where i': "find_ref p xs = Some i'" "i = Suc i'"
      by auto
    from Cons.IH [OF i'(1)] False i'(2) show ?thesis
      by (auto simp: less_Suc_eq_0_disj)
  qed
qed

lemma update_at_length: "(pre @ j # post)[length pre := v] = pre @ v # post"
  by (induction pre) auto

subsection \<open>Decimal rendering\<close>

lemma digit_char_inj: "a < 10 \<Longrightarrow> b < 10 \<Longrightarrow> digit_char a = digit_char b \<Longrightarrow> a = b"
proof -
  assume "a < 10" "b < 10" "digit_char a = digit_char b"
  moreover have "a < 10 \<longleftrightarrow> a \<in> {0,1,2,3,4,5,6,7,8,9}" by auto
  moreover have "b < 10 \<longleftrightarrow> b \<in> {0,1,2,3,4,5,6,7,8,9}" by auto
  ultimately show ?thesis
    by (auto simp: digit_char_def)
qed

lemma digit_char_not_dash: "a < 10 \<Longrightarrow> digit_char a \<noteq> CHR ''-''"
proof -
  assume "a < 10"
  then have "a \<in> {0,1,2,3,4,5,6,7,8,9}" by auto
  then show ?thesis by (auto simp: digit_char_def)
qed

lemma show_nat_not_Nil: "show_nat n \<noteq> []" "[] \<noteq> show_nat n"
  by (subst show_nat.simps, simp)+

lemma show_nat_no_dash: "CHR ''-'' \<notin> set (show_nat n)"
proof (induction n rule: show_nat.induct)
  case (1 n)
  show ?case
  proof (cases "n < 10")
    case True
    then have "digit_char n \<noteq> CHR ''-''"
      by (rule digit_char_not_dash)
    with True show ?thesis
      by (subst show_nat.simps) auto
  next
    case False
    with 1 have "CHR ''-'' \<notin> set (show_nat (n div 10))" by simp
    moreover have "digit_char (n mod 10) \<noteq> CHR ''-''"
      by (rule digit_char_not_dash) simp
    ultimately show ?thesis using False
      by (subst show_nat.simps) auto
  qed
qed

lemma show_nat_inj: "show_nat m = show_nat n \<Longrightarrow> m = n"
proof (induction m arbitrary: n rule: show_nat.induct)
  case (1 m)
  show ?case
  proof (cases "m < 10")
    case m: True
    show ?thesis
    proof (cases "n < 10")
      case True
      with m "1.prems" show ?thesis
        by (simp add: show_nat.simps [of m] show_nat.simps [of n] digit_char_inj)
    next
      case False
      with m "1.prems" show ?thesis
        by (simp add: show_nat.simps [of m] show_nat.simps [of n] show_nat_not_Nil)
    qed
  next
    case m: False
    show ?thesis
    proof (cases "n < 10")
      case True
      with m "1.prems" show ?thesis
        by (simp add: show_nat.simps [of m] show_nat.simps [of n] show_nat_not_Nil)
    next
      case False
      with m "1.prems" have eq: "show_nat (m div 10) = show_nat (n div 10)"
        and d: "digit_char (m mod 10) = digit_char (n mod 10)"
        by (simp_all add: show_nat.simps [of m] show_nat.simps [of n])
      from "1.IH" [OF m eq] have "m div 10 = n div 10" .
      moreover from d have "m mod 10 = n mod 10"
        by (intro digit_char_inj) simp_all
      ultimately show ?thesis
        by (metis div_mult_mod_eq)
    qed
  qed
qed

lemma split_at_first:
  "c \<notin> set xs \<Longrightarrow> c \<notin> set ys \<Longrightarrow> xs @ c # r = ys @ c # r' \<Longrightarrow> xs = ys"
proof -
  assume xs: "c \<notin> set xs" and ys: "c \<notin> set ys" and eq: "xs @ c # r = ys @ c # r'"
  from xs have "takeWhile (\<lambda>x. x \<noteq> c) (xs @ c # r) = xs"
    by (induction xs) auto
  moreover from ys have "takeWhile (\<lambda>x. x \<noteq> c) (ys @ c # r') = ys"
    by (induction ys) auto
  ultimately show ?thesis using eq by simp
qed

lemma makeToken_inj: "makeToken i now = makeToken i' now' \<Longrightarrow> i = i'"
proof -
  assume "makeToken i now = makeToken i' now'"
  then have "show_nat i @ CHR ''-'' # show_int now = show_nat i' @ CHR ''-'' # show_int now'"
    by (simp add: makeToken_def)
  then have "show_nat i = show_nat i'"
    by (rule split_at_first [OF show_nat_no_dash show_nat_no_dash])
  then show ?thesis by (rule show_nat_inj)
qed

lemma makeToken_not_Nil: "makeToken i now \<noteq> []"
  by (simp add: makeToken_def)


subsection \<open>Writes through a reference\<close>

lemma map_update_same:
  "(\<And>x. f (g x) = f x) \<Longrightarrow> map f (xs[r := g (xs ! r)]) = map f xs"
  by (induction xs arbitrary: r) (auto split: nat.splits)

lemma set_status_frame [simp]:
  "nextJobId (set_status r st s) = nextJobId s"
  "length (jobs (set_status r st s)) = length (jobs s)"
  "map job_id (jobs (set_status r st s)) = map job_id (jobs s)"
  "map token (jobs (set_status r st s)) = map token (jobs s)"
  "map content (jobs (set_status r st s)) = map content (jobs s)"
  "idents (set_status r st s) = idents s"
  by (simp_all add: set_status_def idents_def map_update_same [where g = "\<lambda>j. j\<lparr>status := st\<rparr>"])

lemma set_status_nth:
  "i < length (jobs s) \<Longrightarrow>
   status (jobs (set_status r st s) ! i) = (if i = r then st else status (jobs s ! i))"
  by (simp add: set_status_def nth_list_update)

lemma set_status_fields:
  "i < length (jobs s) \<Longrightarrow> token (jobs (set_status r st s) ! i) = token (jobs s ! i)"
  "i < length (jobs s) \<Longrightarrow> content (jobs (set_status r st s) ! i) = content (jobs s ! i)"
  "i < length (jobs s) \<Longrightarrow> job_id (jobs (set_status r st s) ! i) = job_id (jobs s ! i)"
  by (cases "i = r"; simp add: set_status_def)+

lemma set_status_split:
  "jobs s = pre @ j # post \<Longrightarrow>
   set_status (length pre) st s = s\<lparr>jobs := pre @ j\<lparr>status := st\<rparr> # post\<rparr>"
  by (simp add: set_status_def update_at_length)

subsection \<open>The store invariant\<close>

lemma store_inv_init: "store_inv init_store"
  by (simp add: store_inv_def idents_def init_store_def)

lemma store_inv_set_status: "store_inv s \<Longrightarrow> store_inv (set_status r st s)"
  by (simp add: store_inv_def)

lemma store_inv_push:
  assumes "store_inv s"
  shows "store_inv (s\<lparr>nextJobId := nextJobId s + 1,
           jobs := jobs s @ [\<lparr>job_id = nextJobId s, token = makeToken (nextJobId s) now,
                              content = t, status = Pending\<rparr>]\<rparr>)"
proof -
  from assms have srt: "sorted_wrt (<) (map fst (idents s))"
    and bnd: "\<forall>(i, t) \<in> set (idents s). i < nextJobId s \<and> (\<exists>now. t = makeToken i now)"
    by (simp_all add: store_inv_def)
  from bnd have "\<forall>i \<in> set (map fst (idents s)). i < nextJobId s"
    by auto
  with srt have "sorted_wrt (<) (map fst (idents s) @ [nextJobId s])"
    by (simp add: sorted_wrt_append)
  moreover from bnd have "\<forall>(i, t) \<in> set (idents s @ [(nextJobId s, makeToken (nextJobId s) now)]).
      i < nextJobId s + 1 \<and> (\<exists>now. t = makeToken i now)"
    by (auto simp: less_Suc_eq)
  ultimately show ?thesis
    by (simp add: store_inv_def idents_def)
qed

lemma store_inv_handle: "store_inv s \<Longrightarrow> store_inv (snd (handle r s))"
proof (cases r)
  case (PostApiOrder b now)
  assume "store_inv s"
  then show ?thesis
    using store_inv_push [of s now]
    by (auto simp: PostApiOrder post_api_order_def Let_def split: option.splits json.splits)
next
  case GetApiDebugJobs
  assume "store_inv s"
  then show ?thesis by (simp add: GetApiDebugJobs get_api_debug_jobs_def)
next
  case (PostCloudprnt b)
  assume "store_inv s"
  then show ?thesis
    by (auto simp: PostCloudprnt post_cloudprnt_def Let_def store_inv_set_status
             split: option.splits)
next
  case (GetCloudprnt q)
  assume "store_inv s"
  then show ?thesis
    by (auto simp: GetCloudprnt get_cloudprnt_def split: option.splits)
next
  case (DeleteCloudprnt q st)
  assume "store_inv s"
  then show ?thesis
    by (auto simp: DeleteCloudprnt delete_cloudprnt_def store_inv_set_status
             split: option.splits)
next
  case GetRoot
  assume "store_inv s"
  then show ?thesis by (simp add: GetRoot get_root_def)
qed

lemma run_Cons_snd: "snd (run (r # rs) s) = snd (run rs (snd (handle r s)))"
  by (simp add: split_beta Let_def)

lemma run_Cons_fst: "fst (run (r # rs) s) = fst (handle r s) # fst (run rs (snd (handle r s)))"
  by (simp add: split_beta Let_def)

lemma store_inv_run: "store_inv s \<Longrightarrow> store_inv (snd (run rs s))"
proof (induction rs arbitrary: s)
  case Nil
  then show ?case by simp
next
  case (Cons r rs)
  from Cons.prems have "store_inv (snd (handle r s))"
    by (rule store_inv_handle)
  then have "store_inv (snd (run rs (snd (handle r s))))"
    by (rule Cons.IH)
  then show ?case by (simp only: run_Cons_snd)
qed

lemma tokens_distinct_aux:
  "distinct (map fst ps) \<Longrightarrow> \<forall>(i, t) \<in> set ps. \<exists>now. t = makeToken i now \<Longrightarrow>
   distinct (map snd ps)"
proof (induction ps)
  case Nil
  then show ?case by simp
next
  case (Cons p ps)
  obtain i t where p: "p = (i, t)" by (cases p)
  from Cons.prems p obtain now where t: "t = makeToken i now" by auto
  have "t \<notin> snd ` set ps"
  proof
    assume "t \<in> snd ` set ps"
    then obtain i' where mem: "(i', t) \<in> set ps" by auto
    with Cons.prems obtain now' where "t = makeToken i' now'" by auto
    with t have "i = i'" by (auto dest: makeToken_inj)
    with mem have "i \<in> fst ` set ps" by force
    with Cons.prems p show False by simp
  qed
  moreover from Cons have "distinct (map snd ps)" by simp
  ultimately show ?case using p by simp
qed

lemma store_inv_tokens_distinct: "store_inv s \<Longrightarrow> distinct (map token (jobs s))"
proof -
  assume inv: "store_inv s"
  then have "sorted_wrt (<) (map fst (idents s))"
    by (simp add: store_inv_def)
  then have "distinct (map fst (idents s))"
    by (simp add: strict_sorted_iff)
  moreover from inv have "\<forall>(i, t) \<in> set (idents s). \<exists>now. t = makeToken i now"
    by (auto simp: store_inv_def)
  ultimately have "distinct (map snd (idents s))"
    by (rule tokens_distinct_aux)
  then show ?thesis by (simp add: idents_def comp_def)
qed

lemma store_inv_token_not_Nil: "store_inv s \<Longrightarrow> j \<in> set (jobs s) \<Longrightarrow> token j \<noteq> []"
  by (force simp: store_inv_def idents_def makeToken_not_Nil)

lemma find_ref_distinct:
  assumes "distinct (map token xs)" "i < length xs"
  shows "find_ref (token_is (QStr (token (xs ! i)))) xs = Some i"
proof (cases "find_ref (token_is (QStr (token (xs ! i)))) xs")
  case None
  then have "\<not> token_is (QStr (token (xs ! i))) (xs ! i)"
    using assms(2) by (simp add: find_ref_None_iff)
  then show ?thesis by (simp add: token_is_def)
next
  case (Some k)
  then have k: "k < length xs" "token (xs ! k) = token (xs ! i)"
    by (auto dest: find_ref_SomeD simp: token_is_def)
  with assms have "k = i"
    by (metis distinct_conv_nth length_map nth_map)
  with Some show ?thesis by simp
qed

subsection \<open>What one request and a run leave in place\<close>

lemma handle_length: "length (jobs s) \<le> length (jobs (snd (handle r s)))"
  by (cases r)
    (auto simp: post_api_order_def post_cloudprnt_def get_cloudprnt_def delete_cloudprnt_def
                get_api_debug_jobs_def get_root_def Let_def
          split: option.splits json.splits)

lemma handle_fields:
  assumes "i < length (jobs s)"
  shows "token (jobs (snd (handle r s)) ! i) = token (jobs s ! i)"
    and "content (jobs (snd (handle r s)) ! i) = content (jobs s ! i)"
    and "job_id (jobs (snd (handle r s)) ! i) = job_id (jobs s ! i)"
  using assms
  by (cases r;
      auto simp: post_api_order_def post_cloudprnt_def get_cloudprnt_def delete_cloudprnt_def
                 get_api_debug_jobs_def get_root_def Let_def nth_append set_status_fields
           split: option.splits json.splits)+

lemma handle_terminal:
  assumes "i < length (jobs s)" "terminal (status (jobs s ! i))"
  shows "terminal (status (jobs (snd (handle r s)) ! i))"
proof (cases r)
  case (PostCloudprnt b)
  show ?thesis
  proof (cases "find_ref (\<lambda>j. status j = Pending) (jobs s)")
    case None
    with assms show ?thesis by (simp add: PostCloudprnt post_cloudprnt_def)
  next
    case (Some k)
    then have "status (jobs s ! k) = Pending" by (auto dest: find_ref_SomeD)
    with assms have "i \<noteq> k" by (auto simp: terminal_def)
    with assms Some show ?thesis
      by (simp add: PostCloudprnt post_cloudprnt_def Let_def set_status_nth)
  qed
next
  case (DeleteCloudprnt q st)
  with assms show ?thesis
    by (auto simp: delete_cloudprnt_def set_status_nth terminal_def split: option.splits)
qed (use assms in \<open>auto simp: post_api_order_def get_cloudprnt_def get_api_debug_jobs_def
       get_root_def Let_def nth_append split: option.splits json.splits\<close>)

lemma handle_status_kept:
  assumes "i < length (jobs s)" "terminal (status (jobs s ! i))"
    and "\<not> acks_token (token (jobs s ! i)) r"
  shows "status (jobs (snd (handle r s)) ! i) = status (jobs s ! i)"
proof (cases r)
  case (PostCloudprnt b)
  show ?thesis
  proof (cases "find_ref (\<lambda>j. status j = Pending) (jobs s)")
    case None
    with assms show ?thesis by (simp add: PostCloudprnt post_cloudprnt_def)
  next
    case (Some k)
    then have "status (jobs s ! k) = Pending" by (auto dest: find_ref_SomeD)
    with assms have "i \<noteq> k" by (auto simp: terminal_def)
    with assms Some show ?thesis
      by (simp add: PostCloudprnt post_cloudprnt_def Let_def set_status_nth)
  qed
next
  case (DeleteCloudprnt q st)
  show ?thesis
  proof (cases "find_ref (token_is q) (jobs s)")
    case None
    then show ?thesis by (simp add: DeleteCloudprnt delete_cloudprnt_def)
  next
    case (Some k)
    then have "QStr (token (jobs s ! k)) = q" by (auto dest: find_ref_SomeD simp: token_is_def)
    with assms(3) have "i \<noteq> k" by (auto simp: DeleteCloudprnt)
    with assms Some show ?thesis
      by (simp add: DeleteCloudprnt delete_cloudprnt_def set_status_nth)
  qed
qed (use assms in \<open>auto simp: post_api_order_def get_cloudprnt_def get_api_debug_jobs_def
       get_root_def Let_def nth_append split: option.splits json.splits\<close>)

lemma run_length: "length (jobs s) \<le> length (jobs (snd (run rs s)))"
proof (induction rs arbitrary: s)
  case Nil
  show ?case by simp
next
  case (Cons r rs)
  have "length (jobs s) \<le> length (jobs (snd (handle r s)))" by (rule handle_length)
  also have "\<dots> \<le> length (jobs (snd (run rs (snd (handle r s)))))" by (rule Cons.IH)
  finally show ?case by (simp only: run_Cons_snd)
qed

lemma run_fields:
  "i < length (jobs s) \<Longrightarrow>
   token (jobs (snd (run rs s)) ! i) = token (jobs s ! i) \<and>
   content (jobs (snd (run rs s)) ! i) = content (jobs s ! i) \<and>
   job_id (jobs (snd (run rs s)) ! i) = job_id (jobs s ! i)"
proof (induction rs arbitrary: s)
  case Nil
  show ?case by simp
next
  case (Cons r rs)
  from Cons.prems have "i < length (jobs (snd (handle r s)))"
    using handle_length [of s r] by simp
  from Cons.IH [OF this] handle_fields [OF Cons.prems, of r] show ?case
    by (simp only: run_Cons_snd)
qed

lemma run_terminal:
  "i < length (jobs s) \<Longrightarrow> terminal (status (jobs s ! i)) \<Longrightarrow>
   terminal (status (jobs (snd (run rs s)) ! i))"
proof (induction rs arbitrary: s)
  case Nil
  then show ?case by simp
next
  case (Cons r rs)
  from Cons.prems(1) have "i < length (jobs (snd (handle r s)))"
    using handle_length [of s r] by simp
  moreover from Cons.prems have "terminal (status (jobs (snd (handle r s)) ! i))"
    by (rule handle_terminal)
  ultimately have "terminal (status (jobs (snd (run rs (snd (handle r s)))) ! i))"
    by (rule Cons.IH)
  then show ?case by (simp only: run_Cons_snd)
qed

lemma run_status_kept:
  "i < length (jobs s) \<Longrightarrow> terminal (status (jobs s ! i)) \<Longrightarrow>
   \<forall>r \<in> set rs. \<not> acks_token (token (jobs s ! i)) r \<Longrightarrow>
   status (jobs (snd (run rs s)) ! i) = status (jobs s ! i)"
proof (induction rs arbitrary: s)
  case Nil
  then show ?case by simp
next
  case (Cons r rs)
  let ?s = "snd (handle r s)"
  from Cons.prems(1) have len: "i < length (jobs ?s)"
    using handle_length [of s r] by simp
  from Cons.prems have kept: "status (jobs ?s ! i) = status (jobs s ! i)"
    by (intro handle_status_kept) simp_all
  with Cons.prems have trm: "terminal (status (jobs ?s ! i))" by simp
  have tok: "token (jobs ?s ! i) = token (jobs s ! i)"
    using Cons.prems(1) by (rule handle_fields)
  with Cons.prems(3) have "\<forall>r \<in> set rs. \<not> acks_token (token (jobs ?s ! i)) r" by simp
  from Cons.IH [OF len trm this] kept show ?case
    by (simp only: run_Cons_snd)
qed

subsection \<open>Concrete tokens\<close>

lemma token_1 [simp]: "makeToken (Suc 0) 1700000000000 = ''job-1-1700000000000''"
  by (simp add: makeToken_def show_int_def show_nat.simps digit_char_def)

lemma token_2 [simp]: "makeToken 2 1700000000500 = ''job-2-1700000000500''"
  by (simp add: makeToken_def show_int_def show_nat.simps digit_char_def)

lemma token_3 [simp]: "makeToken 3 1700000000900 = ''job-3-1700000000900''"
  by (simp add: makeToken_def show_int_def show_nat.simps digit_char_def)

subsection \<open>Polling and acknowledging at the first match\<close>

lemma poll_none:
  "\<forall>j \<in> set (jobs s). status j \<noteq> Pending \<Longrightarrow> post_cloudprnt b s = (no_job, s)"
  by (simp add: post_cloudprnt_def find_ref_None_iff [THEN iffD2])

lemma poll_first:
  assumes "jobs s = pre @ j # post" "\<forall>x \<in> set pre. status x \<noteq> Pending" "status j = Pending"
  shows "post_cloudprnt b s = (job_ready (token j), s\<lparr>jobs := pre @ j\<lparr>status := Printing\<rparr> # post\<rparr>)"
proof -
  from assms have "find_ref (\<lambda>j. status j = Pending) (jobs s) = Some (length pre)"
    by (simp add: find_ref_first)
  with assms(1) show ?thesis
    by (simp add: post_cloudprnt_def Let_def set_status_split)
qed

lemma ack_first:
  assumes "jobs s = pre @ j # post" "\<forall>x \<in> set pre. token x \<noteq> t" "token j = t" "t \<noteq> []"
  shows "delete_cloudprnt (QStr t) st s =
    (\<lparr>code = 200, headers = [], body = Text ''OK''\<rparr>,
     s\<lparr>jobs := pre @ j\<lparr>status := (if st = QStr ''0'' then Done else Error)\<rparr> # post\<rparr>)"
proof -
  from assms have "find_ref (token_is (QStr t)) (jobs s) = Some (length pre)"
    by (simp add: find_ref_first token_is_def)
  with assms(1,4) show ?thesis
    by (simp add: delete_cloudprnt_def set_status_split)
qed

section \<open>The claims\<close>

text \<open>
  C10. Fetch is a pure read: whatever the \<^verbatim>\<open>job_token\<close> parameter is (absent, empty,
  known, unknown, not a string) and whatever the store, the store after
  \<^verbatim>\<open>GET /cloudprnt\<close> is the store before it: no job is added, removed or changed.
\<close>

theorem fetch_leaves_store: "snd (get_cloudprnt tok s) = s"
  by (simp add: get_cloudprnt_def split: option.splits)

theorem fetch_leaves_store_witness:
  "snd (get_cloudprnt (QStr ''job-1-1700000000000'')
         (snd (run [PostApiOrder (order_body ''Order #1'') 1700000000000] init_store))) =
   \<lparr>nextJobId = 2, jobs = [job1 Pending]\<rparr>"
proof -
  have "snd (run [PostApiOrder (order_body ''Order #1'') 1700000000000] init_store) =
    \<lparr>nextJobId = 2, jobs = [job1 Pending]\<rparr>"
    by (simp add: handler_defs init_store_def job1_def)
  then show ?thesis
    by (simp only: fetch_leaves_store)
qed

text \<open>
  C6. A poll (\<^verbatim>\<open>POST /cloudprnt\<close>, any body): when no job is pending the answer is
  200 with \<^verbatim>\<open>{ jobReady: 0, mediaTypes: ["text/plain"] }\<close> and the store is unchanged;
  when some job is pending, the oldest pending job (the first in the array) becomes
  \<^verbatim>\<open>printing\<close>, nothing else changes, and the answer is 200 with
  \<^verbatim>\<open>{ jobReady: 1, jobToken, mediaTypes: ["text/plain"], pollInterval: 5 }\<close> carrying
  that job's token.
\<close>

theorem poll_response:
  "((\<forall>j \<in> set (jobs s). status j \<noteq> Pending) \<longrightarrow>
      post_cloudprnt b s =
        (\<lparr>code = 200, headers = [],
           body = Json (JObj [(''jobReady'', JNum 0),
                             (''mediaTypes'', JArr [JStr ''text/plain''])])\<rparr>, s)) \<and>
   (jobs s = pre @ j # post \<and> (\<forall>x \<in> set pre. status x \<noteq> Pending) \<and> status j = Pending \<longrightarrow>
      post_cloudprnt b s =
        (\<lparr>code = 200, headers = [],
           body = Json (JObj [(''jobReady'', JNum 1), (''jobToken'', JStr (token j)),
                             (''mediaTypes'', JArr [JStr ''text/plain'']),
                             (''pollInterval'', JNum 5)])\<rparr>,
         s\<lparr>jobs := pre @ j\<lparr>status := Printing\<rparr> # post\<rparr>))"
proof (intro conjI impI)
  assume "\<forall>j \<in> set (jobs s). status j \<noteq> Pending"
  then show "post_cloudprnt b s = (no_job, s)"
    by (rule poll_none)
next
  assume "jobs s = pre @ j # post \<and> (\<forall>x \<in> set pre. status x \<noteq> Pending) \<and> status j = Pending"
  then have "jobs s = pre @ j # post" "\<forall>x \<in> set pre. status x \<noteq> Pending" "status j = Pending"
    by simp_all
  then show "post_cloudprnt b s =
      (job_ready (token j), s\<lparr>jobs := pre @ j\<lparr>status := Printing\<rparr> # post\<rparr>)"
    by (rule poll_first)
qed


theorem poll_response_witness:
  "post_cloudprnt None \<lparr>nextJobId = 2, jobs = [job1 Done]\<rparr> =
     (\<lparr>code = 200, headers = [],
        body = Json (JObj [(''jobReady'', JNum 0),
                          (''mediaTypes'', JArr [JStr ''text/plain''])])\<rparr>,
      \<lparr>nextJobId = 2, jobs = [job1 Done]\<rparr>) \<and>
   post_cloudprnt None \<lparr>nextJobId = 4, jobs = [job1 Done, job2 Pending, job3 Pending]\<rparr> =
     (\<lparr>code = 200, headers = [],
        body = Json (JObj [(''jobReady'', JNum 1), (''jobToken'', JStr ''job-2-1700000000500''),
                          (''mediaTypes'', JArr [JStr ''text/plain'']),
                          (''pollInterval'', JNum 5)])\<rparr>,
      \<lparr>nextJobId = 4, jobs = [job1 Done, job2 Printing, job3 Pending]\<rparr>)"
  using
    poll_response [where s = "\<lparr>nextJobId = 2, jobs = [job1 Done]\<rparr>" and b = None]
    poll_response [where s = "\<lparr>nextJobId = 4, jobs = [job1 Done, job2 Pending, job3 Pending]\<rparr>"
      and pre = "[job1 Done]" and j = "job2 Pending" and post = "[job3 Pending]" and b = None]
  by (simp add: job1_def job2_def job3_def)

subsection \<open>Submissions\<close>

lemma submit_accept:
  "get_prop (body_or_empty b) ''text'' = Some (JStr t) \<Longrightarrow> t \<noteq> [] \<Longrightarrow>
   post_api_order b now s =
     (accepted (nextJobId s) (makeToken (nextJobId s) now),
      s\<lparr>nextJobId := nextJobId s + 1,
        jobs := jobs s @ [\<lparr>job_id = nextJobId s, token = makeToken (nextJobId s) now,
                           content = t, status = Pending\<rparr>]\<rparr>)"
  by (simp add: post_api_order_def Let_def)

lemma submit_reject:
  assumes "\<forall>t. get_prop (body_or_empty b) ''text'' = Some (JStr t) \<longrightarrow> t = []"
  shows "post_api_order b now s = (rejected, s)"
proof (cases "get_prop (body_or_empty b) ''text''")
  case None
  then show ?thesis by (simp add: post_api_order_def)
next
  case (Some v)
  with assms show ?thesis
    by (cases v) (simp_all add: post_api_order_def)
qed

lemma order_body_text [simp]: "get_prop (body_or_empty (order_body t)) ''text'' = Some (JStr t)"
  by (simp add: order_body_def)

text \<open>
  C8. A submission (\<^verbatim>\<open>POST /api/order\<close>) whose body has no \<^verbatim>\<open>text\<close> property, or whose
  \<^verbatim>\<open>text\<close> is the empty string or not a string, is answered with 400 and the JSON body
  \<^verbatim>\<open>{ error: "Missing 'text' field" }\<close>, and the store (array and id counter) is
  unchanged. Every other submission, that is one whose \<^verbatim>\<open>text\<close> is a non-empty string,
  is answered with 200 and \<^verbatim>\<open>{ ok: true, id, token }\<close>; the id is the counter's value,
  the counter advances by one, and one new pending job with that id, token and text is
  appended.
\<close>

theorem submit_validation:
  "((\<forall>t. get_prop (body_or_empty b) ''text'' = Some (JStr t) \<longrightarrow> t = []) \<longrightarrow>
      post_api_order b now s =
        (\<lparr>code = 400, headers = [],
           body = Json (JObj [(''error'', JStr ''Missing 'text' field'')])\<rparr>, s)) \<and>
   (get_prop (body_or_empty b) ''text'' = Some (JStr t) \<and> t \<noteq> [] \<longrightarrow>
      post_api_order b now s =
        (\<lparr>code = 200, headers = [],
           body = Json (JObj [(''ok'', JBool True), (''id'', JNum (real (nextJobId s))),
                             (''token'', JStr (makeToken (nextJobId s) now))])\<rparr>,
         s\<lparr>nextJobId := nextJobId s + 1,
           jobs := jobs s @ [\<lparr>job_id = nextJobId s, token = makeToken (nextJobId s) now,
                              content = t, status = Pending\<rparr>]\<rparr>))"
proof (intro conjI impI)
  assume "\<forall>t. get_prop (body_or_empty b) ''text'' = Some (JStr t) \<longrightarrow> t = []"
  then show "post_api_order b now s = (rejected, s)"
    by (rule submit_reject)
next
  assume "get_prop (body_or_empty b) ''text'' = Some (JStr t) \<and> t \<noteq> []"
  then have "get_prop (body_or_empty b) ''text'' = Some (JStr t)" "t \<noteq> []"
    by simp_all
  then show "post_api_order b now s =
      (accepted (nextJobId s) (makeToken (nextJobId s) now),
       s\<lparr>nextJobId := nextJobId s + 1,
         jobs := jobs s @ [\<lparr>job_id = nextJobId s, token = makeToken (nextJobId s) now,
                            content = t, status = Pending\<rparr>]\<rparr>)"
    by (rule submit_accept)
qed

theorem submit_validation_witness:
  "post_api_order None 1700000000000 init_store = (rejected, init_store) \<and>
   post_api_order (Some (JObj [])) 1700000000000 init_store = (rejected, init_store) \<and>
   post_api_order (Some (JObj [(''text'', JStr '''')])) 1700000000000 init_store =
     (rejected, init_store) \<and>
   post_api_order (Some (JObj [(''text'', JNum 42)])) 1700000000000 init_store =
     (rejected, init_store) \<and>
   post_api_order (order_body ''Order #1'') 1700000000000 init_store =
     (accepted 1 ''job-1-1700000000000'', \<lparr>nextJobId = 2, jobs = [job1 Pending]\<rparr>)"
  using
    submit_validation [where b = None and now = 1700000000000 and s = init_store]
    submit_validation [where b = "Some (JObj [])" and now = 1700000000000 and s = init_store]
    submit_validation [where b = "Some (JObj [(''text'', JStr '''')])" and now = 1700000000000
      and s = init_store]
    submit_validation [where b = "Some (JObj [(''text'', JNum 42)])" and now = 1700000000000
      and s = init_store]
    submit_validation [where b = "order_body ''Order #1''" and now = 1700000000000
      and s = init_store and t = "''Order #1''"]
  by (simp add: init_store_def job1_def)

subsection \<open>A sample run, and acknowledgments that find no job\<close>

lemma run_sample_printing:
  "snd (run [PostApiOrder (order_body ''Order #1'') 1700000000000, PostCloudprnt None]
         init_store) = \<lparr>nextJobId = 2, jobs = [job1 Printing]\<rparr>"
  by (simp add: handler_defs init_store_def job1_def)

lemma run_sample_done:
  "snd (run [PostApiOrder (order_body ''Order #1'') 1700000000000, PostCloudprnt None,
             DeleteCloudprnt (QStr ''job-1-1700000000000'') (QStr ''0'')]
         init_store) = \<lparr>nextJobId = 2, jobs = [job1 Done]\<rparr>"
  by (simp add: handler_defs init_store_def job1_def)

lemma ack_missing_token:
  "\<not> q_truthy tok \<Longrightarrow> delete_cloudprnt tok st s = (missing_token, s)"
  by (simp add: delete_cloudprnt_def)

lemma ack_unknown_token:
  "q_truthy tok \<Longrightarrow> \<forall>j \<in> set (jobs s). QStr (token j) \<noteq> tok \<Longrightarrow>
   delete_cloudprnt tok st s = (not_found, s)"
  by (simp add: delete_cloudprnt_def token_is_def find_ref_None_iff [THEN iffD2])

text \<open>
  C2, as the claim states it, fails: on the store reached by one submission and one poll,
  an acknowledgment that names the job's token and carries no \<^verbatim>\<open>status\<close> parameter is
  answered with 200 \<^verbatim>\<open>OK\<close>, not with a client error, and the job is recorded as
  \<^verbatim>\<open>error\<close>.
\<close>

theorem ack_without_status_counterexample:
  "snd (run [PostApiOrder (order_body ''Order #1'') 1700000000000, PostCloudprnt None]
         init_store) = \<lparr>nextJobId = 2, jobs = [job1 Printing]\<rparr> \<and>
   delete_cloudprnt (QStr ''job-1-1700000000000'') QUndefined
       \<lparr>nextJobId = 2, jobs = [job1 Printing]\<rparr> =
     (\<lparr>code = 200, headers = [], body = Text ''OK''\<rparr>,
      \<lparr>nextJobId = 2, jobs = [job1 Error]\<rparr>) \<and>
   job1 Error \<noteq> job1 Printing"
proof (intro conjI)
  show "snd (run [PostApiOrder (order_body ''Order #1'') 1700000000000, PostCloudprnt None]
         init_store) = \<lparr>nextJobId = 2, jobs = [job1 Printing]\<rparr>"
    by (rule run_sample_printing)
  show "delete_cloudprnt (QStr ''job-1-1700000000000'') QUndefined
       \<lparr>nextJobId = 2, jobs = [job1 Printing]\<rparr> =
     (ok_text, \<lparr>nextJobId = 2, jobs = [job1 Error]\<rparr>)"
    by (simp add: handler_defs job1_def)
  show "job1 Error \<noteq> job1 Printing"
    by (simp add: job1_def)
qed

text \<open>
  C2, amended. An acknowledgment (\<^verbatim>\<open>DELETE /cloudprnt\<close>) requires the token only.
  When the \<^verbatim>\<open>job_token\<close> parameter is absent or empty, the answer is 400
  \<^verbatim>\<open>Missing job_token\<close> and the store is unchanged, whatever the status parameter.
  When the token is present and matches no job, the answer is 404 and the store is
  unchanged. The \<^verbatim>\<open>status\<close> parameter is not required: when it is absent and the token
  matches a job, the answer is 200 \<^verbatim>\<open>OK\<close> and the first job with that token is
  recorded as \<^verbatim>\<open>error\<close>, nothing else changing.
\<close>

theorem ack_requires_token_only:
  "(\<not> q_truthy tok \<longrightarrow>
      delete_cloudprnt tok st s =
        (\<lparr>code = 400, headers = [], body = Text ''Missing job_token''\<rparr>, s)) \<and>
   (q_truthy tok \<and> (\<forall>j \<in> set (jobs s). QStr (token j) \<noteq> tok) \<longrightarrow>
      delete_cloudprnt tok st s =
        (\<lparr>code = 404, headers = [], body = Text ''Job not found''\<rparr>, s)) \<and>
   (jobs s = pre @ j # post \<and> (\<forall>x \<in> set pre. token x \<noteq> t) \<and> token j = t \<and> t \<noteq> [] \<longrightarrow>
      delete_cloudprnt (QStr t) QUndefined s =
        (\<lparr>code = 200, headers = [], body = Text ''OK''\<rparr>,
         s\<lparr>jobs := pre @ j\<lparr>status := Error\<rparr> # post\<rparr>))"
proof (intro conjI impI)
  assume "\<not> q_truthy tok"
  then show "delete_cloudprnt tok st s = (missing_token, s)"
    by (rule ack_missing_token)
next
  assume "q_truthy tok \<and> (\<forall>j \<in> set (jobs s). QStr (token j) \<noteq> tok)"
  then show "delete_cloudprnt tok st s = (not_found, s)"
    by (simp add: ack_unknown_token)
next
  assume "jobs s = pre @ j # post \<and> (\<forall>x \<in> set pre. token x \<noteq> t) \<and> token j = t \<and> t \<noteq> []"
  then have "jobs s = pre @ j # post" "\<forall>x \<in> set pre. token x \<noteq> t" "token j = t" "t \<noteq> []"
    by simp_all
  from ack_first [OF this, of QUndefined]
  show "delete_cloudprnt (QStr t) QUndefined s =
      (ok_text, s\<lparr>jobs := pre @ j\<lparr>status := Error\<rparr> # post\<rparr>)"
    by simp
qed

theorem ack_requires_token_only_witness:
  "delete_cloudprnt QUndefined (QStr ''0'') \<lparr>nextJobId = 3, jobs = [job1 Done, job2 Printing]\<rparr> =
     (missing_token, \<lparr>nextJobId = 3, jobs = [job1 Done, job2 Printing]\<rparr>) \<and>
   delete_cloudprnt (QStr ''job-9-1'') (QStr ''0'')
       \<lparr>nextJobId = 3, jobs = [job1 Done, job2 Printing]\<rparr> =
     (not_found, \<lparr>nextJobId = 3, jobs = [job1 Done, job2 Printing]\<rparr>) \<and>
   delete_cloudprnt (QStr ''job-2-1700000000500'') QUndefined
       \<lparr>nextJobId = 3, jobs = [job1 Done, job2 Printing]\<rparr> =
     (ok_text, \<lparr>nextJobId = 3, jobs = [job1 Done, job2 Error]\<rparr>)"
  using
    ack_requires_token_only [where tok = QUndefined and st = "QStr ''0''"
      and s = "\<lparr>nextJobId = 3, jobs = [job1 Done, job2 Printing]\<rparr>"]
    ack_requires_token_only [where tok = "QStr ''job-9-1''" and st = "QStr ''0''"
      and s = "\<lparr>nextJobId = 3, jobs = [job1 Done, job2 Printing]\<rparr>"]
    ack_requires_token_only [where s = "\<lparr>nextJobId = 3, jobs = [job1 Done, job2 Printing]\<rparr>"
      and pre = "[job1 Done]" and j = "job2 Printing" and post = "[]"
      and t = "''job-2-1700000000500''"]
  by (simp add: job1_def job2_def)

text \<open>
  C1, as the claim states it, fails: after a submission, a poll and a first
  acknowledgment with status \<^verbatim>\<open>"0"\<close> the job is \<^verbatim>\<open>done\<close>; a second acknowledgment of
  the same token with status \<^verbatim>\<open>"1"\<close> is answered with 200 \<^verbatim>\<open>OK\<close>, not refused, and
  the job's status becomes \<^verbatim>\<open>error\<close>.
\<close>

theorem reacknowledge_counterexample:
  "snd (run [PostApiOrder (order_body ''Order #1'') 1700000000000, PostCloudprnt None,
             DeleteCloudprnt (QStr ''job-1-1700000000000'') (QStr ''0'')]
         init_store) = \<lparr>nextJobId = 2, jobs = [job1 Done]\<rparr> \<and>
   delete_cloudprnt (QStr ''job-1-1700000000000'') (QStr ''1'')
       \<lparr>nextJobId = 2, jobs = [job1 Done]\<rparr> =
     (\<lparr>code = 200, headers = [], body = Text ''OK''\<rparr>,
      \<lparr>nextJobId = 2, jobs = [job1 Error]\<rparr>) \<and>
   status (job1 Error) \<noteq> status (job1 Done)"
proof (intro conjI)
  show "snd (run [PostApiOrder (order_body ''Order #1'') 1700000000000, PostCloudprnt None,
             DeleteCloudprnt (QStr ''job-1-1700000000000'') (QStr ''0'')]
         init_store) = \<lparr>nextJobId = 2, jobs = [job1 Done]\<rparr>"
    by (rule run_sample_done)
  show "delete_cloudprnt (QStr ''job-1-1700000000000'') (QStr ''1'')
       \<lparr>nextJobId = 2, jobs = [job1 Done]\<rparr> =
     (ok_text, \<lparr>nextJobId = 2, jobs = [job1 Error]\<rparr>)"
    by (simp add: handler_defs job1_def)
  show "status (job1 Error) \<noteq> status (job1 Done)"
    by (simp add: job1_def)
qed

text \<open>
  C1, amended. A job that has reached a terminal status (\<^verbatim>\<open>done\<close> or \<^verbatim>\<open>error\<close>) keeps
  its place in the queue and stays terminal under every later sequence of requests, and
  its status is unchanged by every sequence that contains no acknowledgment naming its
  token: submissions, polls, fetches, listings and acknowledgments of other tokens leave
  it alone. An acknowledgment naming the token of an already-terminal job is not refused:
  like any acknowledgment that finds its job, it is answered 200 \<^verbatim>\<open>OK\<close> and sets the
  status of the first job with that token again, to \<^verbatim>\<open>done\<close> for status \<^verbatim>\<open>"0"\<close> and to
  \<^verbatim>\<open>error\<close> for anything else.
\<close>

theorem terminal_stays_terminal:
  "(i < length (jobs s) \<and> terminal (status (jobs s ! i)) \<longrightarrow>
      i < length (jobs (snd (run rs s))) \<and>
      terminal (status (jobs (snd (run rs s)) ! i)) \<and>
      ((\<forall>r \<in> set rs. \<not> acks_token (token (jobs s ! i)) r) \<longrightarrow>
         status (jobs (snd (run rs s)) ! i) = status (jobs s ! i))) \<and>
   (jobs s = pre @ j # post \<and> (\<forall>x \<in> set pre. token x \<noteq> t) \<and> token j = t \<and> t \<noteq> [] \<longrightarrow>
      delete_cloudprnt (QStr t) st s =
        (\<lparr>code = 200, headers = [], body = Text ''OK''\<rparr>,
         s\<lparr>jobs := pre @ j\<lparr>status := (if st = QStr ''0'' then Done else Error)\<rparr> # post\<rparr>))"
proof (intro conjI impI)
  assume a: "i < length (jobs s) \<and> terminal (status (jobs s ! i))"
  then have i: "i < length (jobs s)" and t: "terminal (status (jobs s ! i))"
    by simp_all
  from i run_length [of s rs] show "i < length (jobs (snd (run rs s)))"
    by simp
  from i t show "terminal (status (jobs (snd (run rs s)) ! i))"
    by (rule run_terminal)
  assume "\<forall>r \<in> set rs. \<not> acks_token (token (jobs s ! i)) r"
  with i t show "status (jobs (snd (run rs s)) ! i) = status (jobs s ! i)"
    by (rule run_status_kept)
next
  assume "jobs s = pre @ j # post \<and> (\<forall>x \<in> set pre. token x \<noteq> t) \<and> token j = t \<and> t \<noteq> []"
  then have "jobs s = pre @ j # post" "\<forall>x \<in> set pre. token x \<noteq> t" "token j = t" "t \<noteq> []"
    by simp_all
  then show "delete_cloudprnt (QStr t) st s =
      (ok_text, s\<lparr>jobs := pre @ j\<lparr>status := (if st = QStr ''0'' then Done else Error)\<rparr> # post\<rparr>)"
    by (rule ack_first)
qed

theorem terminal_stays_terminal_witness:
  "terminal (status (jobs \<lparr>nextJobId = 3, jobs = [job1 Done, job2 Pending]\<rparr> ! 0)) \<and>
   status (jobs (snd (run [PostCloudprnt None, GetCloudprnt (QStr ''job-1-1700000000000''),
                           DeleteCloudprnt (QStr ''job-2-1700000000500'') (QStr ''3''),
                           PostApiOrder (order_body ''Order #3'') 1700000000900,
                           GetApiDebugJobs, GetRoot]
                       \<lparr>nextJobId = 3, jobs = [job1 Done, job2 Pending]\<rparr>)) ! 0) = Done \<and>
   terminal (status (jobs (snd (run [DeleteCloudprnt (QStr ''job-1-1700000000000'') (QStr ''5'')]
                       \<lparr>nextJobId = 3, jobs = [job1 Done, job2 Pending]\<rparr>)) ! 0)) \<and>
   delete_cloudprnt (QStr ''job-1-1700000000000'') (QStr ''5'')
       \<lparr>nextJobId = 3, jobs = [job1 Done, job2 Pending]\<rparr> =
     (ok_text, \<lparr>nextJobId = 3, jobs = [job1 Error, job2 Pending]\<rparr>)"
  using
    terminal_stays_terminal [where i = 0
      and s = "\<lparr>nextJobId = 3, jobs = [job1 Done, job2 Pending]\<rparr>"
      and rs = "[PostCloudprnt None, GetCloudprnt (QStr ''job-1-1700000000000''),
                 DeleteCloudprnt (QStr ''job-2-1700000000500'') (QStr ''3''),
                 PostApiOrder (order_body ''Order #3'') 1700000000900,
                 GetApiDebugJobs, GetRoot]"]
    terminal_stays_terminal [where i = 0
      and s = "\<lparr>nextJobId = 3, jobs = [job1 Done, job2 Pending]\<rparr>"
      and rs = "[DeleteCloudprnt (QStr ''job-1-1700000000000'') (QStr ''5'')]"
      and pre = "[]" and j = "job1 Done" and post = "[job2 Pending]"
      and t = "''job-1-1700000000000''" and st = "QStr ''5''"]
  by (simp add: handler_defs job1_def job2_def terminal_def)

subsection \<open>Three submissions, then three polls\<close>

lemma token_2_Suc [simp]: "makeToken (Suc (Suc 0)) 1700000000500 = ''job-2-1700000000500''"
  unfolding numeral_2_eq_2 [symmetric] by (rule token_2)

lemma token_3_Suc [simp]: "makeToken (Suc (Suc (Suc 0))) 1700000000900 = ''job-3-1700000000900''"
  unfolding numeral_3_eq_3 [symmetric] by (rule token_3)

lemma poll_first_resp:
  assumes "\<forall>x \<in> set pre. status x \<noteq> Pending" "status j = Pending"
  shows "post_cloudprnt b (s\<lparr>jobs := pre @ j # post\<rparr>) =
    (job_ready (token j), s\<lparr>jobs := pre @ j\<lparr>status := Printing\<rparr> # post\<rparr>)"
  using poll_first [of "s\<lparr>jobs := pre @ j # post\<rparr>" pre j post b] assms by simp

lemma three_submitted_three_polled:
  assumes np: "\<forall>x \<in> set (jobs s). status x \<noteq> Pending"
    and ne: "a \<noteq> []" "b \<noteq> []" "c \<noteq> []"
  shows "fst (run [PostApiOrder (order_body a) ta, PostApiOrder (order_body b) tb,
                   PostApiOrder (order_body c) tc,
                   PostCloudprnt p1, PostCloudprnt p2, PostCloudprnt p3] s) =
    [accepted (nextJobId s) (makeToken (nextJobId s) ta),
     accepted (nextJobId s + 1) (makeToken (nextJobId s + 1) tb),
     accepted (nextJobId s + 2) (makeToken (nextJobId s + 2) tc),
     job_ready (makeToken (nextJobId s) ta),
     job_ready (makeToken (nextJobId s + 1) tb),
     job_ready (makeToken (nextJobId s + 2) tc)]"
proof -
  let ?n = "nextJobId s"
  let ?A = "\<lparr>job_id = ?n, token = makeToken ?n ta, content = a, status = Pending\<rparr>"
  let ?B = "\<lparr>job_id = ?n + 1, token = makeToken (?n + 1) tb, content = b, status = Pending\<rparr>"
  let ?C = "\<lparr>job_id = ?n + 2, token = makeToken (?n + 2) tc, content = c, status = Pending\<rparr>"
  let ?s3 = "s\<lparr>nextJobId := ?n + 3, jobs := jobs s @ [?A, ?B, ?C]\<rparr>"
  have sub: "run [PostApiOrder (order_body a) ta, PostApiOrder (order_body b) tb,
                  PostApiOrder (order_body c) tc] s =
      ([accepted ?n (makeToken ?n ta), accepted (?n + 1) (makeToken (?n + 1) tb),
        accepted (?n + 2) (makeToken (?n + 2) tc)], ?s3)"
    using ne by (simp add: submit_accept numeral_3_eq_3)
  have p1: "post_cloudprnt p1 ?s3 =
      (job_ready (makeToken ?n ta),
       s\<lparr>nextJobId := ?n + 3, jobs := jobs s @ [?A\<lparr>status := Printing\<rparr>, ?B, ?C]\<rparr>)"
    using poll_first_resp [where pre = "jobs s" and j = ?A and b = p1
        and s = "s\<lparr>nextJobId := ?n + 3\<rparr>" and post = "[?B, ?C]"] np
    by simp
  have p2: "post_cloudprnt p2
        (s\<lparr>nextJobId := ?n + 3, jobs := jobs s @ [?A\<lparr>status := Printing\<rparr>, ?B, ?C]\<rparr>) =
      (job_ready (makeToken (?n + 1) tb),
       s\<lparr>nextJobId := ?n + 3,
         jobs := jobs s @ [?A\<lparr>status := Printing\<rparr>, ?B\<lparr>status := Printing\<rparr>, ?C]\<rparr>)"
    using poll_first_resp [where pre = "jobs s @ [?A\<lparr>status := Printing\<rparr>]" and j = ?B and b = p2
        and s = "s\<lparr>nextJobId := ?n + 3\<rparr>" and post = "[?C]"] np
    by simp
  have p3: "fst (post_cloudprnt p3
        (s\<lparr>nextJobId := ?n + 3,
           jobs := jobs s @ [?A\<lparr>status := Printing\<rparr>, ?B\<lparr>status := Printing\<rparr>, ?C]\<rparr>)) =
      job_ready (makeToken (?n + 2) tc)"
    using poll_first_resp [where pre = "jobs s @ [?A\<lparr>status := Printing\<rparr>, ?B\<lparr>status := Printing\<rparr>]"
        and j = ?C and b = p3 and s = "s\<lparr>nextJobId := ?n + 3\<rparr>" and post = "[]"] np
    by simp
  have "fst (run [PostApiOrder (order_body a) ta, PostApiOrder (order_body b) tb,
                   PostApiOrder (order_body c) tc,
                   PostCloudprnt p1, PostCloudprnt p2, PostCloudprnt p3] s) =
        fst (run [PostApiOrder (order_body a) ta, PostApiOrder (order_body b) tb,
                   PostApiOrder (order_body c) tc] s) @
        fst (run [PostCloudprnt p1, PostCloudprnt p2, PostCloudprnt p3]
              (snd (run [PostApiOrder (order_body a) ta, PostApiOrder (order_body b) tb,
                   PostApiOrder (order_body c) tc] s)))"
    by (simp add: split_beta Let_def)
  also have "\<dots> = [accepted ?n (makeToken ?n ta), accepted (?n + 1) (makeToken (?n + 1) tb),
        accepted (?n + 2) (makeToken (?n + 2) tc)] @
        fst (run [PostCloudprnt p1, PostCloudprnt p2, PostCloudprnt p3] ?s3)"
    by (simp only: sub fst_conv snd_conv)
  also have "fst (run [PostCloudprnt p1, PostCloudprnt p2, PostCloudprnt p3] ?s3) =
      [job_ready (makeToken ?n ta), job_ready (makeToken (?n + 1) tb),
       job_ready (makeToken (?n + 2) tc)]"
    by (simp only: run_Cons_fst run_Cons_snd handle.simps run.simps(1) p1 p2 p3 fst_conv snd_conv)
  finally show ?thesis by simp
qed

text \<open>
  C3. Dispatch is first-in-first-out. In every store, a poll answers with the token of
  the earliest-inserted pending job: the job before which, in the array, no job is
  pending. Hence, on a store where nothing is pending, when jobs A, B and C are
  submitted in this order and nothing else happens, three polls in sequence answer with
  the tokens returned for A, for B and for C, in this order.
\<close>

theorem fifo_dispatch:
  "(jobs s = pre @ j # post \<and> (\<forall>x \<in> set pre. status x \<noteq> Pending) \<and> status j = Pending \<longrightarrow>
      fst (post_cloudprnt p s) = job_ready (token j)) \<and>
   ((\<forall>x \<in> set (jobs s). status x \<noteq> Pending) \<and> a \<noteq> [] \<and> b \<noteq> [] \<and> c \<noteq> [] \<longrightarrow>
      fst (run [PostApiOrder (order_body a) ta, PostApiOrder (order_body b) tb,
                PostApiOrder (order_body c) tc,
                PostCloudprnt p1, PostCloudprnt p2, PostCloudprnt p3] s) =
        [accepted (nextJobId s) (makeToken (nextJobId s) ta),
         accepted (nextJobId s + 1) (makeToken (nextJobId s + 1) tb),
         accepted (nextJobId s + 2) (makeToken (nextJobId s + 2) tc),
         job_ready (makeToken (nextJobId s) ta),
         job_ready (makeToken (nextJobId s + 1) tb),
         job_ready (makeToken (nextJobId s + 2) tc)])"
proof (intro conjI impI)
  assume "jobs s = pre @ j # post \<and> (\<forall>x \<in> set pre. status x \<noteq> Pending) \<and> status j = Pending"
  then have "jobs s = pre @ j # post" "\<forall>x \<in> set pre. status x \<noteq> Pending" "status j = Pending"
    by simp_all
  from poll_first [OF this, of p] show "fst (post_cloudprnt p s) = job_ready (token j)"
    by (simp only: fst_conv)
next
  assume "(\<forall>x \<in> set (jobs s). status x \<noteq> Pending) \<and> a \<noteq> [] \<and> b \<noteq> [] \<and> c \<noteq> []"
  then have "\<forall>x \<in> set (jobs s). status x \<noteq> Pending" "a \<noteq> []" "b \<noteq> []" "c \<noteq> []"
    by simp_all
  then show "fst (run [PostApiOrder (order_body a) ta, PostApiOrder (order_body b) tb,
                PostApiOrder (order_body c) tc,
                PostCloudprnt p1, PostCloudprnt p2, PostCloudprnt p3] s) =
        [accepted (nextJobId s) (makeToken (nextJobId s) ta),
         accepted (nextJobId s + 1) (makeToken (nextJobId s + 1) tb),
         accepted (nextJobId s + 2) (makeToken (nextJobId s + 2) tc),
         job_ready (makeToken (nextJobId s) ta),
         job_ready (makeToken (nextJobId s + 1) tb),
         job_ready (makeToken (nextJobId s + 2) tc)]"
    by (rule three_submitted_three_polled)
qed

theorem fifo_dispatch_witness:
  "fst (post_cloudprnt None
         \<lparr>nextJobId = 4, jobs = [job1 Printing, job2 Pending, job3 Pending]\<rparr>) =
     job_ready ''job-2-1700000000500'' \<and>
   fst (run [PostApiOrder (order_body ''Order #1'') 1700000000000,
             PostApiOrder (order_body ''Order #2'') 1700000000500,
             PostApiOrder (order_body ''Order #3'') 1700000000900,
             PostCloudprnt None, PostCloudprnt None, PostCloudprnt None] init_store) =
     [accepted 1 ''job-1-1700000000000'', accepted 2 ''job-2-1700000000500'',
      accepted 3 ''job-3-1700000000900'',
      job_ready ''job-1-1700000000000'', job_ready ''job-2-1700000000500'',
      job_ready ''job-3-1700000000900'']"
  using
    fifo_dispatch [where s = "\<lparr>nextJobId = 4, jobs = [job1 Printing, job2 Pending, job3 Pending]\<rparr>"
      and pre = "[job1 Printing]" and j = "job2 Pending" and post = "[job3 Pending]" and p = None]
    fifo_dispatch [where s = init_store and a = "''Order #1''" and b = "''Order #2''"
      and c = "''Order #3''" and ta = 1700000000000 and tb = 1700000000500
      and tc = 1700000000900 and ?p1.0 = None and ?p2.0 = None and ?p3.0 = None]
  by (simp add: init_store_def job1_def job2_def job3_def del: run.simps)

subsection \<open>Fetching in a store built by the handlers\<close>

lemma store_inv_reachable: "store_inv (snd (run rs init_store))"
  by (rule store_inv_run [OF store_inv_init])

lemma fetch_at:
  assumes "store_inv s" "i < length (jobs s)"
  shows "get_cloudprnt (QStr (token (jobs s ! i))) s = (job_data (content (jobs s ! i)), s)"
proof -
  from assms have "token (jobs s ! i) \<noteq> []"
    by (intro store_inv_token_not_Nil [of s]) simp_all
  moreover from assms have "find_ref (token_is (QStr (token (jobs s ! i)))) (jobs s) = Some i"
    by (intro find_ref_distinct store_inv_tokens_distinct)
  ultimately show ?thesis
    by (simp add: get_cloudprnt_def)
qed

lemma fetch_unknown:
  "q_truthy q \<Longrightarrow> \<forall>j \<in> set (jobs s). QStr (token j) \<noteq> q \<Longrightarrow>
   get_cloudprnt q s = (not_found, s)"
  by (simp add: get_cloudprnt_def token_is_def find_ref_None_iff [THEN iffD2])

lemma roundtrip_aux:
  assumes t: "get_prop (body_or_empty b) ''text'' = Some (JStr t)" "t \<noteq> []"
    and inv: "store_inv s1"
  shows "get_cloudprnt (QStr (makeToken (nextJobId s1) now))
           (snd (run rs (snd (post_api_order b now s1)))) =
         (job_data t, snd (run rs (snd (post_api_order b now s1))))"
proof -
  let ?tok = "makeToken (nextJobId s1) now"
  let ?new = "\<lparr>job_id = nextJobId s1, token = ?tok, content = t, status = Pending\<rparr>"
  let ?s2 = "s1\<lparr>nextJobId := nextJobId s1 + 1, jobs := jobs s1 @ [?new]\<rparr>"
  let ?s3 = "snd (run rs ?s2)"
  let ?n = "length (jobs s1)"
  from t have s2: "snd (post_api_order b now s1) = ?s2"
    by (simp add: submit_accept)
  from inv have "store_inv ?s2"
    by (rule store_inv_push)
  then have inv3: "store_inv ?s3"
    by (rule store_inv_run)
  have n2: "?n < length (jobs ?s2)" by simp
  with run_length [of ?s2 rs] have n3: "?n < length (jobs ?s3)" by simp
  from run_fields [OF n2, of rs]
  have "token (jobs ?s3 ! ?n) = ?tok" "content (jobs ?s3 ! ?n) = t"
    by simp_all
  with fetch_at [OF inv3 n3] have "get_cloudprnt (QStr ?tok) ?s3 = (job_data t, ?s3)"
    by simp
  then show ?thesis
    by (simp only: s2)
qed

text \<open>
  C7. Fetch is status-blind. For every job in a store the handlers have built, a fetch
  with that job's token is answered with 200, the content type
  \<^verbatim>\<open>text/plain; charset=utf-8\<close> and the job's content, whatever the job's status is:
  pending, printing, done or error.
\<close>

theorem fetch_ignores_status:
  "j \<in> set (jobs (snd (run rs init_store))) \<longrightarrow>
     get_cloudprnt (QStr (token j)) (snd (run rs init_store)) =
       (\<lparr>code = 200, headers = [(''Content-Type'', ''text/plain; charset=utf-8'')],
          body = Text (content j)\<rparr>,
        snd (run rs init_store))"
proof
  let ?s = "snd (run rs init_store)"
  assume "j \<in> set (jobs ?s)"
  then obtain i where i: "i < length (jobs ?s)" "jobs ?s ! i = j"
    by (auto simp: in_set_conv_nth)
  from fetch_at [OF store_inv_reachable i(1)] i(2)
  show "get_cloudprnt (QStr (token j)) ?s = (job_data (content j), ?s)"
    by simp
qed

theorem fetch_ignores_status_witness:
  "snd (run [PostApiOrder (order_body ''Order #1'') 1700000000000, PostCloudprnt None,
             DeleteCloudprnt (QStr ''job-1-1700000000000'') (QStr ''0'')]
         init_store) = \<lparr>nextJobId = 2, jobs = [job1 Done]\<rparr> \<and>
   status (job1 Done) = Done \<and>
   get_cloudprnt (QStr ''job-1-1700000000000'') \<lparr>nextJobId = 2, jobs = [job1 Done]\<rparr> =
     (job_data ''Order #1'', \<lparr>nextJobId = 2, jobs = [job1 Done]\<rparr>)"
  using
    fetch_ignores_status [where j = "job1 Done"
      and rs = "[PostApiOrder (order_body ''Order #1'') 1700000000000, PostCloudprnt None,
                 DeleteCloudprnt (QStr ''job-1-1700000000000'') (QStr ''0'')]"]
  by (simp only: run_sample_done) (simp add: job1_def)

text \<open>
  C4. Round trip of the content. When a submission with text \<open>t\<close> is accepted, at any
  point of the process lifetime, the token it returns fetches exactly \<open>t\<close> after every
  later sequence of requests; no request changes the content of a job already in the
  queue; and a fetch whose token is present (\<^verbatim>\<open>job_token\<close> is not empty, which the
  handler treats as missing) and matches no job is answered with 404.
\<close>

theorem submit_fetch_roundtrip:
  "(get_prop (body_or_empty b) ''text'' = Some (JStr t) \<and> t \<noteq> [] \<longrightarrow>
      (let s1 = snd (run before init_store);
           tok = makeToken (nextJobId s1) now;
           s3 = snd (run after (snd (post_api_order b now s1)))
       in fst (post_api_order b now s1) = accepted (nextJobId s1) tok \<and>
          get_cloudprnt (QStr tok) s3 =
            (\<lparr>code = 200, headers = [(''Content-Type'', ''text/plain; charset=utf-8'')],
               body = Text t\<rparr>, s3))) \<and>
   (i < length (jobs s) \<longrightarrow> content (jobs (snd (run rs s)) ! i) = content (jobs s ! i)) \<and>
   (q_truthy q \<and> (\<forall>j \<in> set (jobs s). QStr (token j) \<noteq> q) \<longrightarrow>
      get_cloudprnt q s = (\<lparr>code = 404, headers = [], body = Text ''Job not found''\<rparr>, s))"
proof (intro conjI impI)
  assume "get_prop (body_or_empty b) ''text'' = Some (JStr t) \<and> t \<noteq> []"
  then have t: "get_prop (body_or_empty b) ''text'' = Some (JStr t)" "t \<noteq> []"
    by simp_all
  let ?s1 = "snd (run before init_store)"
  have "fst (post_api_order b now ?s1) = accepted (nextJobId ?s1) (makeToken (nextJobId ?s1) now)"
    using t by (simp add: submit_accept)
  moreover have "get_cloudprnt (QStr (makeToken (nextJobId ?s1) now))
           (snd (run after (snd (post_api_order b now ?s1)))) =
         (job_data t, snd (run after (snd (post_api_order b now ?s1))))"
    using t store_inv_reachable by (rule roundtrip_aux)
  ultimately show "let s1 = snd (run before init_store);
           tok = makeToken (nextJobId s1) now;
           s3 = snd (run after (snd (post_api_order b now s1)))
       in fst (post_api_order b now s1) = accepted (nextJobId s1) tok \<and>
          get_cloudprnt (QStr tok) s3 = (job_data t, s3)"
    by (simp only: Let_def)
next
  assume "i < length (jobs s)"
  then show "content (jobs (snd (run rs s)) ! i) = content (jobs s ! i)"
    by (simp add: run_fields)
next
  assume "q_truthy q \<and> (\<forall>j \<in> set (jobs s). QStr (token j) \<noteq> q)"
  then show "get_cloudprnt q s = (not_found, s)"
    by (simp add: fetch_unknown)
qed

theorem submit_fetch_roundtrip_witness:
  "fst (post_api_order (order_body ''Order #2'') 1700000000500
         (snd (run [PostApiOrder (order_body ''Order #1'') 1700000000000, PostCloudprnt None]
                init_store))) = accepted 2 ''job-2-1700000000500'' \<and>
   fst (get_cloudprnt (QStr ''job-2-1700000000500'')
         (snd (run [PostCloudprnt None,
                    DeleteCloudprnt (QStr ''job-1-1700000000000'') (QStr ''0''),
                    DeleteCloudprnt (QStr ''job-2-1700000000500'') (QStr ''4'')]
                (snd (post_api_order (order_body ''Order #2'') 1700000000500
                       (snd (run [PostApiOrder (order_body ''Order #1'') 1700000000000,
                                  PostCloudprnt None] init_store))))))) =
     job_data ''Order #2'' \<and>
   content (jobs (snd (run [PostCloudprnt None,
                            DeleteCloudprnt (QStr ''job-1-1700000000000'') (QStr ''0'')]
                        \<lparr>nextJobId = 2, jobs = [job1 Pending]\<rparr>)) ! 0) = ''Order #1'' \<and>
   get_cloudprnt (QStr ''job-9-1'') \<lparr>nextJobId = 2, jobs = [job1 Pending]\<rparr> =
     (not_found, \<lparr>nextJobId = 2, jobs = [job1 Pending]\<rparr>)"
  using
    submit_fetch_roundtrip [where b = "order_body ''Order #2''" and t = "''Order #2''"
      and now = 1700000000500
      and before = "[PostApiOrder (order_body ''Order #1'') 1700000000000, PostCloudprnt None]"
      and after = "[PostCloudprnt None,
                    DeleteCloudprnt (QStr ''job-1-1700000000000'') (QStr ''0''),
                    DeleteCloudprnt (QStr ''job-2-1700000000500'') (QStr ''4'')]"
      and i = 0 and s = "\<lparr>nextJobId = 2, jobs = [job1 Pending]\<rparr>"
      and rs = "[PostCloudprnt None,
                 DeleteCloudprnt (QStr ''job-1-1700000000000'') (QStr ''0'')]"
      and q = "QStr ''job-9-1''"]
  by (simp add: handler_defs init_store_def job1_def)

subsection \<open>What the responses of a run contain\<close>

lemma returned_ids_Cons: "returned_ids (r # rs) = returned_ids [r] @ returned_ids rs"
  by (simp split: option.splits json.splits)

lemma returned_tokens_Cons: "returned_tokens (r # rs) = returned_tokens [r] @ returned_tokens rs"
  by (simp split: option.splits json.splits)

lemma set_status_real_ids [simp]:
  "map (\<lambda>j. real (job_id j)) (jobs (set_status r st s)) = map (\<lambda>j. real (job_id j)) (jobs s)"
  by (simp add: set_status_def map_update_same [where g = "\<lambda>j. j\<lparr>status := st\<rparr>"])

lemma handle_returned:
  "map (\<lambda>j. real (job_id j)) (jobs (snd (handle r s))) =
     map (\<lambda>j. real (job_id j)) (jobs s) @ returned_ids [fst (handle r s)]"
  "map token (jobs (snd (handle r s))) = map token (jobs s) @ returned_tokens [fst (handle r s)]"
proof -
  have "map (\<lambda>j. real (job_id j)) (jobs (snd (handle r s))) =
     map (\<lambda>j. real (job_id j)) (jobs s) @ returned_ids [fst (handle r s)] \<and>
    map token (jobs (snd (handle r s))) = map token (jobs s) @ returned_tokens [fst (handle r s)]"
  proof (cases r)
    case (PostApiOrder b now)
    show ?thesis
    proof (cases "\<exists>t. get_prop (body_or_empty b) ''text'' = Some (JStr t) \<and> t \<noteq> []")
      case True
      then obtain t where "get_prop (body_or_empty b) ''text'' = Some (JStr t)" "t \<noteq> []"
        by blast
      then show ?thesis
        by (simp add: PostApiOrder submit_accept body_prop_def)
    next
      case False
      then have "\<forall>t. get_prop (body_or_empty b) ''text'' = Some (JStr t) \<longrightarrow> t = []"
        by blast
      then show ?thesis
        by (simp add: PostApiOrder submit_reject body_prop_def)
    qed
  next
    case GetApiDebugJobs
    then show ?thesis by (simp add: get_api_debug_jobs_def body_prop_def)
  next
    case (PostCloudprnt b)
    then show ?thesis
      by (simp add: post_cloudprnt_def body_prop_def Let_def split: option.splits)
  next
    case (GetCloudprnt q)
    then show ?thesis
      by (simp add: get_cloudprnt_def body_prop_def split: option.splits)
  next
    case (DeleteCloudprnt q st)
    then show ?thesis
      by (simp add: delete_cloudprnt_def body_prop_def split: option.splits)
  next
    case GetRoot
    then show ?thesis by (simp add: get_root_def body_prop_def)
  qed
  then show
    "map (\<lambda>j. real (job_id j)) (jobs (snd (handle r s))) =
       map (\<lambda>j. real (job_id j)) (jobs s) @ returned_ids [fst (handle r s)]"
    "map token (jobs (snd (handle r s))) = map token (jobs s) @ returned_tokens [fst (handle r s)]"
    by simp_all
qed

lemma run_returned:
  "map (\<lambda>j. real (job_id j)) (jobs (snd (run rs s))) =
     map (\<lambda>j. real (job_id j)) (jobs s) @ returned_ids (fst (run rs s)) \<and>
   map token (jobs (snd (run rs s))) = map token (jobs s) @ returned_tokens (fst (run rs s))"
proof (induction rs arbitrary: s)
  case Nil
  show ?case by simp
next
  case (Cons r rs)
  from Cons.IH [of "snd (handle r s)"] handle_returned [of r s]
  show ?case
    by (simp only: run_Cons_fst run_Cons_snd
          returned_ids_Cons [of "fst (handle r s)" "fst (run rs (snd (handle r s)))"]
          returned_tokens_Cons [of "fst (handle r s)" "fst (run rs (snd (handle r s)))"]
          append_assoc)
qed

text \<open>
  C5. Over every sequence of requests served in one process lifetime, the \<^verbatim>\<open>id\<close> values
  returned to accepted submissions are strictly increasing in the order of the responses
  (so no id is returned twice), and the returned \<^verbatim>\<open>token\<close> values are pairwise distinct.
\<close>

theorem ids_increase_tokens_differ:
  "sorted_wrt (<) (returned_ids (fst (run rs init_store))) \<and>
   distinct (returned_tokens (fst (run rs init_store)))"
proof
  let ?s = "snd (run rs init_store)"
  have inv: "store_inv ?s" by (rule store_inv_reachable)
  from run_returned [of rs init_store]
  have ids: "returned_ids (fst (run rs init_store)) = map (\<lambda>j. real (job_id j)) (jobs ?s)"
    and toks: "returned_tokens (fst (run rs init_store)) = map token (jobs ?s)"
    by (simp_all add: init_store_def)
  from inv have "sorted_wrt (<) (map job_id (jobs ?s))"
    by (simp add: store_inv_def idents_def comp_def)
  then have "sorted_wrt (<) (map (\<lambda>j. real (job_id j)) (jobs ?s))"
    by (simp add: sorted_wrt_map)
  with ids show "sorted_wrt (<) (returned_ids (fst (run rs init_store)))"
    by simp
  from inv have "distinct (map token (jobs ?s))"
    by (rule store_inv_tokens_distinct)
  with toks show "distinct (returned_tokens (fst (run rs init_store)))"
    by simp
qed

theorem ids_increase_tokens_differ_witness:
  "returned_ids (fst (run [PostApiOrder (order_body ''Order #1'') 1700000000000,
                           PostCloudprnt None,
                           PostApiOrder (Some (JObj [])) 1700000000200,
                           PostApiOrder (order_body ''Order #2'') 1700000000500,
                           GetApiDebugJobs,
                           PostApiOrder (order_body ''Order #3'') 1700000000900]
                       init_store)) = [1, 2, 3] \<and>
   returned_tokens (fst (run [PostApiOrder (order_body ''Order #1'') 1700000000000,
                              PostCloudprnt None,
                              PostApiOrder (Some (JObj [])) 1700000000200,
                              PostApiOrder (order_body ''Order #2'') 1700000000500,
                              GetApiDebugJobs,
                              PostApiOrder (order_body ''Order #3'') 1700000000900]
                          init_store)) =
     [''job-1-1700000000000'', ''job-2-1700000000500'', ''job-3-1700000000900''] \<and>
   sorted_wrt (<) (returned_ids (fst (run [PostApiOrder (order_body ''Order #1'') 1700000000000,
                           PostCloudprnt None,
                           PostApiOrder (Some (JObj [])) 1700000000200,
                           PostApiOrder (order_body ''Order #2'') 1700000000500,
                           GetApiDebugJobs,
                           PostApiOrder (order_body ''Order #3'') 1700000000900]
                       init_store))) \<and>
   distinct (returned_tokens (fst (run [PostApiOrder (order_body ''Order #1'') 1700000000000,
                              PostCloudprnt None,
                              PostApiOrder (Some (JObj [])) 1700000000200,
                              PostApiOrder (order_body ''Order #2'') 1700000000500,
                              GetApiDebugJobs,
                              PostApiOrder (order_body ''Order #3'') 1700000000900]
                          init_store)))"
  using
    ids_increase_tokens_differ [where rs = "[PostApiOrder (order_body ''Order #1'') 1700000000000,
                           PostCloudprnt None,
                           PostApiOrder (Some (JObj [])) 1700000000200,
                           PostApiOrder (order_body ''Order #2'') 1700000000500,
                           GetApiDebugJobs,
                           PostApiOrder (order_body ''Order #3'') 1700000000900]"]
  by (simp add: handler_defs init_store_def body_prop_def)

subsection \<open>Polls served one after the other\<close>

lemma run_polls_none:
  "\<forall>x \<in> set (jobs s). status x \<noteq> Pending \<Longrightarrow>
   run (map PostCloudprnt bs) s = (replicate (length bs) no_job, s)"
  by (induction bs) (simp_all add: poll_none)

lemma run_polls_one:
  assumes "jobs s = pre @ j # post" "\<forall>x \<in> set pre \<union> set post. status x \<noteq> Pending"
    "status j = Pending"
  shows "fst (run (map PostCloudprnt (b # bs)) s) =
    job_ready (token j) # replicate (length bs) no_job"
proof -
  let ?s' = "s\<lparr>jobs := pre @ j\<lparr>status := Printing\<rparr> # post\<rparr>"
  from assms have "post_cloudprnt b s = (job_ready (token j), ?s')"
    by (intro poll_first) simp_all
  moreover from assms(2) have "\<forall>x \<in> set (jobs ?s'). status x \<noteq> Pending"
    by auto
  then have "run (map PostCloudprnt bs) ?s' = (replicate (length bs) no_job, ?s')"
    by (rule run_polls_none)
  ultimately show ?thesis
    by simp
qed

lemma zip_replicate_same: "zip xs (replicate (length xs) v) = map (\<lambda>x. (x, v)) xs"
  by (induction xs) simp_all

lemma filter_other:
  "v \<noteq> w \<Longrightarrow> filter (\<lambda>(k, r). r = w) (map (\<lambda>k. (k, v)) xs) = []"
  by (induction xs) simp_all

lemma filter_same:
  "filter (\<lambda>(k, r). r = v) (map (\<lambda>k. (k, v)) xs) = map (\<lambda>k. (k, v)) xs"
  by (induction xs) simp_all

lemma no_job_not_ready: "no_job \<noteq> job_ready t" "job_ready t \<noteq> no_job"
  by simp_all

lemma serve_polls:
  assumes s: "jobs s = pre @ j # post" "\<forall>x \<in> set pre \<union> set post. status x \<noteq> Pending"
    "status j = Pending"
    and ord: "distinct order" "set order = {..<length bodies}" "bodies \<noteq> []"
  shows "serve_concurrently order (map PostCloudprnt bodies) s =
    (hd order, job_ready (token j)) # map (\<lambda>k. (k, no_job)) (tl order)"
proof -
  from ord obtain k rest where order: "order = k # rest"
    by (cases order) auto
  from ord(2) have "\<forall>i \<in> set order. i < length bodies"
    by auto
  then have "map (\<lambda>i. map PostCloudprnt bodies ! i) order =
      map PostCloudprnt (map (\<lambda>i. bodies ! i) order)"
    by simp
  then have "fst (run (map (\<lambda>i. map PostCloudprnt bodies ! i) order) s) =
      job_ready (token j) # replicate (length rest) no_job"
    using run_polls_one [OF s, of "bodies ! k" "map (\<lambda>i. bodies ! i) rest"]
    by (simp only: order list.map length_map)
  then show ?thesis
    by (simp add: serve_concurrently_def order zip_replicate_same)
qed


lemma order_length:
  assumes "distinct order" "set order = {..<length bodies}" "bodies \<noteq> []"
  shows "length (tl order) = length bodies - 1"
proof -
  have "card (set order) = length order"
    using assms(1) by (rule distinct_card)
  then have "length order = card {..<length bodies}"
    by (simp only: assms(2))
  then have "length order = length bodies"
    by (simp only: card_lessThan)
  then show ?thesis
    by (cases order) simp_all
qed

lemma count_ready:
  "length (filter (\<lambda>(k, r). r = job_ready t)
     ((k0, job_ready t) # map (\<lambda>k. (k, no_job)) ks)) = 1"
  by (simp only: filter.simps prod.case filter_other [OF no_job_not_ready(1)] if_True
        list.size simp_thms)

lemma count_none:
  "length (filter (\<lambda>(k, r). r = no_job)
     ((k0, job_ready t) # map (\<lambda>k. (k, no_job)) ks)) = length ks"
  by (simp only: filter.simps prod.case no_job_not_ready if_False filter_same length_map)

subsection \<open>Polls against any number of pending jobs\<close>

lemma pending_split:
  assumes "\<exists>x \<in> set xs. status x = Pending"
  obtains pre j post where "xs = pre @ j # post" "\<forall>x \<in> set pre. status x \<noteq> Pending"
    "status j = Pending"
  using assms split_list_first_prop [of xs "\<lambda>x. status x = Pending"] by blast

lemma run_polls_general:
  "fst (run (map PostCloudprnt bs) s) =
     map job_ready (take (length bs) (map token (filter (\<lambda>j. status j = Pending) (jobs s)))) @
     replicate (length bs - length (filter (\<lambda>j. status j = Pending) (jobs s))) no_job"
proof (induction bs arbitrary: s)
  case Nil
  show ?case by simp
next
  case (Cons b bs)
  show ?case
  proof (cases "\<exists>x \<in> set (jobs s). status x = Pending")
    case False
    then have none: "\<forall>x \<in> set (jobs s). status x \<noteq> Pending" by simp
    then have "filter (\<lambda>j. status j = Pending) (jobs s) = []"
      by (simp add: filter_empty_conv)
    moreover from none have "post_cloudprnt b s = (no_job, s)"
      by (rule poll_none)
    ultimately show ?thesis
      using Cons.IH [of s]
      by (simp only: list.map run_Cons_fst run_Cons_snd handle.simps fst_conv snd_conv) simp
  next
    case True
    then obtain pre j post where sp: "jobs s = pre @ j # post"
      "\<forall>x \<in> set pre. status x \<noteq> Pending" "status j = Pending"
      by (rule pending_split)
    let ?s' = "s\<lparr>jobs := pre @ j\<lparr>status := Printing\<rparr> # post\<rparr>"
    from sp have poll: "post_cloudprnt b s = (job_ready (token j), ?s')"
      by (rule poll_first)
    from sp(2) have pre: "filter (\<lambda>j. status j = Pending) pre = []"
      by (simp add: filter_empty_conv)
    with sp have f: "filter (\<lambda>j. status j = Pending) (jobs s) =
        j # filter (\<lambda>j. status j = Pending) post"
      by simp
    from pre have f': "filter (\<lambda>j. status j = Pending) (jobs ?s') =
        filter (\<lambda>j. status j = Pending) post"
      by simp
    have "fst (run (map PostCloudprnt (b # bs)) s) =
        job_ready (token j) # fst (run (map PostCloudprnt bs) ?s')"
      by (simp only: list.map run_Cons_fst run_Cons_snd handle.simps poll fst_conv snd_conv)
    also have "fst (run (map PostCloudprnt bs) ?s') =
        map job_ready (take (length bs) (map token (filter (\<lambda>j. status j = Pending) post))) @
        replicate (length bs - length (filter (\<lambda>j. status j = Pending) post)) no_job"
      by (simp only: Cons.IH [of ?s'] f')
    finally show ?thesis
      by (simp only: f) simp
  qed
qed

lemma permutation_length:
  assumes "distinct order" "set order = {..<n}"
  shows "length order = n"
proof -
  have "card (set order) = length order"
    using assms(1) by (rule distinct_card)
  then have "length order = card {..<n}"
    by (simp only: assms(2))
  then show ?thesis
    by (simp only: card_lessThan)
qed

lemma serve_polls_general:
  assumes ord: "distinct order" "set order = {..<length bodies}"
  shows "map fst (serve_concurrently order (map PostCloudprnt bodies) s) = order"
    and "map snd (serve_concurrently order (map PostCloudprnt bodies) s) =
      map job_ready (take (length bodies)
        (map token (filter (\<lambda>j. status j = Pending) (jobs s)))) @
      replicate (length bodies - length (filter (\<lambda>j. status j = Pending) (jobs s))) no_job"
proof -
  let ?resps = "fst (run (map (\<lambda>k. map PostCloudprnt bodies ! k) order) s)"
  let ?want = "map job_ready (take (length bodies)
        (map token (filter (\<lambda>j. status j = Pending) (jobs s)))) @
      replicate (length bodies - length (filter (\<lambda>j. status j = Pending) (jobs s))) no_job"
  from ord have len: "length order = length bodies"
    by (rule permutation_length)
  from ord(2) have "\<forall>i \<in> set order. i < length bodies"
    by auto
  then have "map (\<lambda>i. map PostCloudprnt bodies ! i) order =
      map PostCloudprnt (map (\<lambda>i. bodies ! i) order)"
    by simp
  then have "?resps = fst (run (map PostCloudprnt (map (\<lambda>i. bodies ! i) order)) s)"
    by (simp only:)
  also have "\<dots> = ?want"
    by (simp only: run_polls_general length_map len)
  finally have resps: "?resps = ?want" .
  have "length ?want = length bodies"
    by simp
  with resps len have eq: "length order = length ?resps"
    by simp
  then show "map fst (serve_concurrently order (map PostCloudprnt bodies) s) = order"
    by (simp only: serve_concurrently_def map_fst_zip)
  from eq have "map snd (serve_concurrently order (map PostCloudprnt bodies) s) = ?resps"
    by (simp only: serve_concurrently_def map_snd_zip)
  with resps show "map snd (serve_concurrently order (map PostCloudprnt bodies) s) = ?want"
    by (simp only:)
qed

lemma count_in_distinct: "distinct ts \<Longrightarrow> length (filter (\<lambda>x. x = t) ts) \<le> Suc 0"
proof (induction ts)
  case Nil
  show ?case by simp
next
  case (Cons a ts)
  show ?case
  proof (cases "a = t")
    case True
    with Cons.prems have "t \<notin> set ts" by simp
    then have "filter (\<lambda>x. x = t) ts = []"
      by (auto simp: filter_empty_conv)
    with True show ?thesis by simp
  next
    case False
    with Cons show ?thesis by simp
  qed
qed

lemma count_ready_le_one:
  assumes "distinct ts"
  shows "length (filter (\<lambda>r. r = job_ready t) (map job_ready ts @ replicate m no_job)) \<le> 1"
proof -
  have "filter (\<lambda>r. r = job_ready t) (replicate m no_job) = []"
    by (induction m) simp_all
  moreover have "filter (\<lambda>r. r = job_ready t) (map job_ready ts) =
      map job_ready (filter (\<lambda>x. x = t) ts)"
    by (induction ts) simp_all
  ultimately show ?thesis
    using count_in_distinct [OF assms, of t] by simp
qed

lemma claimed_at_most_once:
  assumes ord: "distinct order" "set order = {..<length bodies}"
    and toks: "distinct (map token (jobs s))"
  shows "length (filter (\<lambda>(k, r). r = job_ready t)
           (serve_concurrently order (map PostCloudprnt bodies) s)) \<le> 1"
proof -
  let ?out = "serve_concurrently order (map PostCloudprnt bodies) s"
  let ?ts = "take (length bodies) (map token (filter (\<lambda>j. status j = Pending) (jobs s)))"
  have "length (filter (\<lambda>(k, r). r = job_ready t) ?out) =
      length (filter (\<lambda>r. r = job_ready t) (map snd ?out))"
    by (simp add: filter_map comp_def case_prod_unfold)
  also have "map snd ?out = map job_ready ?ts @
      replicate (length bodies - length (filter (\<lambda>j. status j = Pending) (jobs s))) no_job"
    using ord by (rule serve_polls_general)
  finally have "length (filter (\<lambda>(k, r). r = job_ready t) ?out) =
      length (filter (\<lambda>r. r = job_ready t) (map job_ready ?ts @
        replicate (length bodies - length (filter (\<lambda>j. status j = Pending) (jobs s))) no_job))" .
  moreover from toks have "distinct ?ts"
    by (intro distinct_take distinct_map_filter)
  ultimately show ?thesis
    using count_ready_le_one [of ?ts t] by (simp only:)
qed

text \<open>
  C9. No double dispatch. Let polls be in flight at once. No handler yields, so the
  event loop serves them one at a time, in an arbitrary order (a permutation \<open>order\<close> of
  the request indices).

  \<^item> Against a store with exactly one pending job and \<open>N > 0\<close> polls, whatever the
    order, the poll served first receives the job-ready response carrying that job's
    token and each of the others receives the no-job response: exactly one job-ready
    response and \<open>N - 1\<close> no-job responses.
  \<^item> Against any store, with any number of pending jobs, the polls in serving order
    receive the tokens of the pending jobs, oldest first, one job each, and once the
    pending jobs are used up the remaining polls receive the no-job response: a second
    poll sees the next-oldest pending job, never the same one.
  \<^item> Hence, tokens being pairwise distinct, the token of any given job is carried by at
    most one of the job-ready responses: a pending job is claimed by at most one poll.
    Tokens are pairwise distinct in every store the handlers build from the initial one.
\<close>

theorem no_double_dispatch:
  "(jobs s = pre @ j # post \<and> (\<forall>x \<in> set pre \<union> set post. status x \<noteq> Pending) \<and>
    status j = Pending \<and>
    distinct order \<and> set order = {..<length bodies} \<and> bodies \<noteq> [] \<longrightarrow>
      serve_concurrently order (map PostCloudprnt bodies) s =
        (hd order, job_ready (token j)) # map (\<lambda>k. (k, no_job)) (tl order) \<and>
      length (filter (\<lambda>(k, r). r = job_ready (token j))
               (serve_concurrently order (map PostCloudprnt bodies) s)) = 1 \<and>
      length (filter (\<lambda>(k, r). r = no_job)
               (serve_concurrently order (map PostCloudprnt bodies) s)) = length bodies - 1) \<and>
   (distinct order \<and> set order = {..<length bodies} \<longrightarrow>
      map fst (serve_concurrently order (map PostCloudprnt bodies) s) = order \<and>
      map snd (serve_concurrently order (map PostCloudprnt bodies) s) =
        map job_ready (take (length bodies)
          (map token (filter (\<lambda>x. status x = Pending) (jobs s)))) @
        replicate (length bodies - length (filter (\<lambda>x. status x = Pending) (jobs s))) no_job) \<and>
   (distinct order \<and> set order = {..<length bodies} \<and> distinct (map token (jobs s)) \<longrightarrow>
      (\<forall>x \<in> set (jobs s).
         length (filter (\<lambda>(k, r). r = job_ready (token x))
                  (serve_concurrently order (map PostCloudprnt bodies) s)) \<le> 1)) \<and>
   distinct (map token (jobs (snd (run rs init_store))))"
proof (intro conjI impI ballI)
  assume "jobs s = pre @ j # post \<and> (\<forall>x \<in> set pre \<union> set post. status x \<noteq> Pending) \<and>
   status j = Pending \<and>
   distinct order \<and> set order = {..<length bodies} \<and> bodies \<noteq> []"
  then have s: "jobs s = pre @ j # post" "\<forall>x \<in> set pre \<union> set post. status x \<noteq> Pending"
    "status j = Pending"
    and ord: "distinct order" "set order = {..<length bodies}" "bodies \<noteq> []"
    by simp_all
  have out: "serve_concurrently order (map PostCloudprnt bodies) s =
      (hd order, job_ready (token j)) # map (\<lambda>k. (k, no_job)) (tl order)"
    using s ord by (rule serve_polls)
  have len: "length (tl order) = length bodies - 1"
    using ord by (rule order_length)
  show "serve_concurrently order (map PostCloudprnt bodies) s =
       (hd order, job_ready (token j)) # map (\<lambda>k. (k, no_job)) (tl order)"
    by (rule out)
  show "length (filter (\<lambda>(k, r). r = job_ready (token j))
              (serve_concurrently order (map PostCloudprnt bodies) s)) = 1"
    by (simp only: out count_ready)
  show "length (filter (\<lambda>(k, r). r = no_job)
              (serve_concurrently order (map PostCloudprnt bodies) s)) = length bodies - 1"
    by (simp only: out count_none len)
next
  assume "distinct order \<and> set order = {..<length bodies}"
  then have ord: "distinct order" "set order = {..<length bodies}"
    by simp_all
  from ord show "map fst (serve_concurrently order (map PostCloudprnt bodies) s) = order"
    by (rule serve_polls_general)
  from ord show "map snd (serve_concurrently order (map PostCloudprnt bodies) s) =
        map job_ready (take (length bodies)
          (map token (filter (\<lambda>x. status x = Pending) (jobs s)))) @
        replicate (length bodies - length (filter (\<lambda>x. status x = Pending) (jobs s))) no_job"
    by (rule serve_polls_general)
next
  fix x
  assume "distinct order \<and> set order = {..<length bodies} \<and> distinct (map token (jobs s))"
  then have "distinct order" "set order = {..<length bodies}" "distinct (map token (jobs s))"
    by simp_all
  then show "length (filter (\<lambda>(k, r). r = job_ready (token x))
                  (serve_concurrently order (map PostCloudprnt bodies) s)) \<le> 1"
    by (rule claimed_at_most_once)
next
  show "distinct (map token (jobs (snd (run rs init_store))))"
    by (rule store_inv_tokens_distinct [OF store_inv_reachable])
qed

theorem no_double_dispatch_witness:
  "serve_concurrently [2, 0, 1]
       (map PostCloudprnt [None, Some (JObj []), Some (JObj [(''statusCode'', JStr ''200 OK'')])])
       \<lparr>nextJobId = 3, jobs = [job1 Done, job2 Pending]\<rparr> =
     [(2, job_ready ''job-2-1700000000500''), (0, no_job), (1, no_job)] \<and>
   map snd (serve_concurrently [2, 0, 1]
       (map PostCloudprnt [None, Some (JObj []), Some (JObj [(''statusCode'', JStr ''200 OK'')])])
       \<lparr>nextJobId = 4, jobs = [job1 Pending, job2 Pending, job3 Done]\<rparr>) =
     [job_ready ''job-1-1700000000000'', job_ready ''job-2-1700000000500'', no_job] \<and>
   length (filter (\<lambda>(k, r). r = job_ready ''job-1-1700000000000'')
       (serve_concurrently [2, 0, 1]
         (map PostCloudprnt [None, Some (JObj []), Some (JObj [(''statusCode'', JStr ''200 OK'')])])
         \<lparr>nextJobId = 4, jobs = [job1 Pending, job2 Pending, job3 Done]\<rparr>)) \<le> 1"
proof -
  let ?s = "\<lparr>nextJobId = 3, jobs = [job1 Done, job2 Pending]\<rparr>"
  let ?s2 = "\<lparr>nextJobId = 4, jobs = [job1 Pending, job2 Pending, job3 Done]\<rparr>"
  let ?bodies = "[None, Some (JObj []), Some (JObj [(''statusCode'', JStr ''200 OK'')])]"
  have perm: "distinct [2, 0, 1::nat] \<and> set [2, 0, 1] = {..<length ?bodies}"
    by (auto simp: lessThan_Suc)
  then have one: "jobs ?s = [job1 Done] @ job2 Pending # [] \<and>
      (\<forall>x \<in> set [job1 Done] \<union> set []. status x \<noteq> Pending) \<and>
      status (job2 Pending) = Pending \<and>
      distinct [2, 0, 1::nat] \<and> set [2, 0, 1] = {..<length ?bodies} \<and> ?bodies \<noteq> []"
    by (simp add: job1_def job2_def)
  have toks: "distinct (map token (jobs ?s2))"
    by (simp add: job1_def job2_def job3_def)
  with perm have three: "distinct [2, 0, 1::nat] \<and> set [2, 0, 1] = {..<length ?bodies} \<and>
      distinct (map token (jobs ?s2))"
    by (simp only: simp_thms)
  have mem: "job1 Pending \<in> set (jobs ?s2)"
    by simp
  note thm1 = no_double_dispatch [where s = ?s and pre = "[job1 Done]" and j = "job2 Pending"
      and post = "[]" and order = "[2, 0, 1]" and bodies = ?bodies]
  note thm2 = no_double_dispatch [where s = ?s2 and order = "[2, 0, 1]" and bodies = ?bodies]
  from thm1 [THEN conjunct1, THEN mp, OF one]
  have a: "serve_concurrently [2, 0, 1] (map PostCloudprnt ?bodies) ?s =
      [(2, job_ready ''job-2-1700000000500''), (0, no_job), (1, no_job)]"
    by (simp add: job2_def)
  from thm2 [THEN conjunct2, THEN conjunct1, THEN mp, OF perm]
  have b: "map snd (serve_concurrently [2, 0, 1] (map PostCloudprnt ?bodies) ?s2) =
      [job_ready ''job-1-1700000000000'', job_ready ''job-2-1700000000500'', no_job]"
    by (simp add: job1_def job2_def job3_def)
  from thm2 [THEN conjunct2, THEN conjunct2, THEN conjunct1, THEN mp, OF three, THEN bspec, OF mem]
  have c: "length (filter (\<lambda>(k, r). r = job_ready ''job-1-1700000000000'')
       (serve_concurrently [2, 0, 1] (map PostCloudprnt ?bodies) ?s2)) \<le> 1"
    by (simp add: job1_def)
  from a b c show ?thesis
    by (intro conjI)
qed

end
